theory Spec2Isabelle
  imports Main
begin

section \<open>AutoSpark: task store, text serializer and batch-script compiler\<close>

text \<open>
  The development embeds three source files of the application:
  \<^item> \<^verbatim>\<open>task_manager.py\<close>: the ordered task store (\<open>TaskManager\<close>);
  \<^item> \<^verbatim>\<open>file_handler.py\<close>: the text serializer (\<open>save_tasks\<close>,
    \<open>parse_text_to_tasks\<close>) and the compiler to a batch script (\<open>convert_to_bat\<close>,
    \<open>_write_url_code\<close>, \<open>get_bat_path\<close>).

  Python strings are modelled as \<open>string\<close> (lists of 8-bit characters), read as the
  UTF-8 bytes of the text.  The source searches, cuts and compares with ASCII characters
  only, and these operations give the same pieces on the bytes as on the characters.
  Three built-in functions depend on the Unicode character tables.  \<open>s.strip()\<close> is
  modelled in full: the whitespace characters are few.  \<open>s.lower()\<close> and \<open>int(s)\<close> are
  modelled in full on ASCII text; on any other text they are what the interpreter makes
  of them, which is a parameter of the model.  Python integers are \<open>int\<close>.
\<close>

subsection \<open>Python string primitives\<close>

abbreviation (input) NL :: char where "NL \<equiv> CHR 0x0A"
abbreviation (input) BSL :: char where "BSL \<equiv> CHR 0x5C"

definition str_startswith :: "string \<Rightarrow> string \<Rightarrow> bool" where
  "str_startswith s p = (take (length p) s = p)"

definition str_endswith :: "string \<Rightarrow> string \<Rightarrow> bool" where
  "str_endswith s p = (length p \<le> length s \<and> drop (length s - length p) s = p)"

text \<open>A text of ASCII characters only: every byte is below 0x80.\<close>

definition is_ascii :: "string \<Rightarrow> bool" where
  "is_ascii s = list_all (\<lambda>c. \<not> digit7 c) s"

text \<open>
  The interpreter.  \<open>lower_nonascii\<close> is \<open>str.lower\<close> and \<open>int_nonascii\<close> is \<open>int\<close> on
  the texts that are not ASCII (\<open>None\<close> for \<open>ValueError\<close>); \<open>max_str_digits\<close> is the
  value of \<open>sys.get_int_max_str_digits()\<close>, which is 4300 unless it was set otherwise and
  0 when there is no limit.
\<close>

record python =
  lower_nonascii :: "string \<Rightarrow> string"
  int_nonascii :: "string \<Rightarrow> int option"
  max_str_digits :: nat

text \<open>
  The characters for which \<open>str.isspace\<close> holds, each as its UTF-8 bytes: U+0009 to
  U+000D, U+001C to U+001F, U+0020, U+0085, U+00A0, U+1680, U+2000 to U+200A, U+2028,
  U+2029, U+202F, U+205F and U+3000.
\<close>

definition whitespace :: "string list" where
  "whitespace =
     [[CHR 0x09], [CHR 0x0A], [CHR 0x0B], [CHR 0x0C], [CHR 0x0D],
      [CHR 0x1C], [CHR 0x1D], [CHR 0x1E], [CHR 0x1F], [CHR 0x20],
      [CHR 0xC2, CHR 0x85], [CHR 0xC2, CHR 0xA0],
      [CHR 0xE1, CHR 0x9A, CHR 0x80],
      [CHR 0xE2, CHR 0x80, CHR 0x80], [CHR 0xE2, CHR 0x80, CHR 0x81],
      [CHR 0xE2, CHR 0x80, CHR 0x82], [CHR 0xE2, CHR 0x80, CHR 0x83],
      [CHR 0xE2, CHR 0x80, CHR 0x84], [CHR 0xE2, CHR 0x80, CHR 0x85],
      [CHR 0xE2, CHR 0x80, CHR 0x86], [CHR 0xE2, CHR 0x80, CHR 0x87],
      [CHR 0xE2, CHR 0x80, CHR 0x88], [CHR 0xE2, CHR 0x80, CHR 0x89],
      [CHR 0xE2, CHR 0x80, CHR 0x8A],
      [CHR 0xE2, CHR 0x80, CHR 0xA8], [CHR 0xE2, CHR 0x80, CHR 0xA9],
      [CHR 0xE2, CHR 0x80, CHR 0xAF],
      [CHR 0xE2, CHR 0x81, CHR 0x9F],
      [CHR 0xE3, CHR 0x80, CHR 0x80]]"

text \<open>
  \<open>s.strip()\<close>: whitespace characters are removed from the start of the text while it
  starts with one, and from its end while it ends with one.  In UTF-8 a text starts (ends)
  with a character exactly when its bytes start (end) with the bytes of that character.
\<close>

function lstrip :: "string \<Rightarrow> string" where
  "lstrip s =
     (case List.find (str_startswith s) whitespace of
        None \<Rightarrow> s
      | Some w \<Rightarrow> lstrip (drop (length w) s))"
  by pat_completeness auto
termination
proof (relation "measure length")
  show "wf (measure length)" by simp
next
  fix s w
  assume "List.find (str_startswith s) whitespace = Some w"
  then have "w \<in> set whitespace" and "take (length w) s = w"
    by (auto simp: find_Some_iff str_startswith_def)
  moreover from this(1) have "w \<noteq> []"
    by (auto simp: whitespace_def)
  ultimately have "s \<noteq> []" and "0 < length w"
    by auto
  then show "(drop (length w) s, s) \<in> measure length"
    by simp
qed

function rstrip :: "string \<Rightarrow> string" where
  "rstrip s =
     (case List.find (str_endswith s) whitespace of
        None \<Rightarrow> s
      | Some w \<Rightarrow> rstrip (take (length s - length w) s))"
  by pat_completeness auto
termination
proof (relation "measure length")
  show "wf (measure length)" by simp
next
  fix s w
  assume "List.find (str_endswith s) whitespace = Some w"
  then have "w \<in> set whitespace" and "length w \<le> length s"
    by (auto simp: find_Some_iff str_endswith_def)
  moreover from this(1) have "w \<noteq> []"
    by (auto simp: whitespace_def)
  ultimately have "0 < length s" and "0 < length w"
    by auto
  then show "(take (length s - length w) s, s) \<in> measure length"
    by simp
qed

declare lstrip.simps [simp del] rstrip.simps [simp del]

definition str_strip :: "string \<Rightarrow> string" where
  "str_strip s = rstrip (lstrip s)"

text \<open>\<open>s.lower()\<close>: on ASCII text the letters A to Z become a to z and nothing else
  changes; on other text the result is the interpreter's.\<close>

definition lower_char :: "char \<Rightarrow> char" where
  "lower_char c =
     (case map_of (zip ''ABCDEFGHIJKLMNOPQRSTUVWXYZ'' ''abcdefghijklmnopqrstuvwxyz'') c of
        Some d \<Rightarrow> d
      | None \<Rightarrow> c)"

definition str_lower :: "python \<Rightarrow> string \<Rightarrow> string" where
  "str_lower py s = (if is_ascii s then map lower_char s else lower_nonascii py s)"

text \<open>\<open>s.find(c)\<close> for a one-character needle: the first index, or \<open>-1\<close>.\<close>

definition str_find :: "string \<Rightarrow> char \<Rightarrow> int" where
  "str_find s c = (if c \<in> set s then int (length (takeWhile (\<lambda>x. x \<noteq> c) s)) else - 1)"

text \<open>\<open>s.rfind(c)\<close>: the last index, or \<open>-1\<close>.\<close>

definition str_rfind :: "string \<Rightarrow> char \<Rightarrow> int" where
  "str_rfind s c =
     (if c \<in> set s then int (length s) - 1 - int (length (takeWhile (\<lambda>x. x \<noteq> c) (rev s)))
      else - 1)"

text \<open>\<open>s.split(c, 1)\<close>: at most one cut, at the first occurrence.\<close>

definition str_split1 :: "char \<Rightarrow> string \<Rightarrow> string list" where
  "str_split1 c s =
     (if c \<in> set s then [takeWhile (\<lambda>x. x \<noteq> c) s, drop 1 (dropWhile (\<lambda>x. x \<noteq> c) s)]
      else [s])"

text \<open>\<open>s.split(c)\<close>: cut at every occurrence; the empty string gives one empty piece.\<close>

fun str_split :: "char \<Rightarrow> string \<Rightarrow> string list" where
  "str_split c [] = [[]]"
| "str_split c (x # xs) =
     (if x = c then [] # str_split c xs
      else (case str_split c xs of [] \<Rightarrow> [[x]] | w # ws \<Rightarrow> (x # w) # ws))"

text \<open>\<open>s.replace(a, b)\<close> for one-character \<open>a\<close> and \<open>b\<close>.\<close>

definition str_replace :: "char \<Rightarrow> char \<Rightarrow> string \<Rightarrow> string" where
  "str_replace a b s = map (\<lambda>x. if x = a then b else x) s"

text \<open>\<open>str(n)\<close> for an integer: decimal digits, with a minus sign when negative.\<close>

definition digit_char :: "nat \<Rightarrow> char" where
  "digit_char d = ''0123456789'' ! d"

fun str_nat :: "nat \<Rightarrow> string" where
  "str_nat n = (if n < 10 then [digit_char n] else str_nat (n div 10) @ [digit_char (n mod 10)])"

declare str_nat.simps [simp del]

definition str_int :: "int \<Rightarrow> string" where
  "str_int i = (if i < 0 then CHR ''-'' # str_nat (nat (- i)) else str_nat (nat i))"

text \<open>
  \<open>int(s)\<close> on an ASCII text, base 10.  The whitespace that is skipped on both sides is
  that of C: tab, line feed, vertical tab, form feed, carriage return and the blank (the
  separators 0x1C to 0x1F are not skipped).  One sign is allowed, then decimal digits in
  which single underscores may separate digits.  A text with more than 640 digits and more
  than \<open>limit\<close> digits is rejected when the limit is not 0.  Anything else raises
  \<open>ValueError\<close>, here \<open>None\<close>.
\<close>

definition c_isspace :: "char \<Rightarrow> bool" where
  "c_isspace c = (c \<in> set [CHR 0x09, CHR 0x0A, CHR 0x0B, CHR 0x0C, CHR 0x0D, CHR 0x20])"

definition isdigit :: "char \<Rightarrow> bool" where
  "isdigit c = (c \<in> set ''0123456789'')"

definition digit_val :: "char \<Rightarrow> int" where
  "digit_val c = int (length (takeWhile (\<lambda>x. x \<noteq> c) ''0123456789''))"

fun digits_ok :: "string \<Rightarrow> bool" where
  "digits_ok [] = False"
| "digits_ok [c] = isdigit c"
| "digits_ok (c # d # r) =
     (isdigit c \<and> (if d = CHR ''_'' then r \<noteq> [] \<and> digits_ok r else digits_ok (d # r)))"

definition digits_value :: "string \<Rightarrow> int" where
  "digits_value ds = foldl (\<lambda>acc c. if c = CHR ''_'' then acc else 10 * acc + digit_val c) 0 ds"

definition ascii_int :: "nat \<Rightarrow> string \<Rightarrow> int option" where
  "ascii_int limit s =
     (case rev (dropWhile c_isspace (rev (dropWhile c_isspace s))) of
        [] \<Rightarrow> None
      | c # r \<Rightarrow>
          (let body = (if c = CHR ''-'' \<or> c = CHR ''+'' then r else c # r)
           in if \<not> digits_ok body then None
              else if 640 < length (filter isdigit body) \<and> 0 < limit \<and>
                      limit < length (filter isdigit body) then None
              else Some (if c = CHR ''-'' then - digits_value body else digits_value body)))"

text \<open>\<open>int(s)\<close>: as above on ASCII text, the interpreter's answer on any other text.\<close>

definition py_int :: "python \<Rightarrow> string \<Rightarrow> int option" where
  "py_int py s = (if is_ascii s then ascii_int (max_str_digits py) s else int_nonascii py s)"

subsection \<open>Tasks\<close>

text \<open>A task is a dictionary with the keys \<open>type\<close>, \<open>details\<close> and \<open>additional\<close>; every
  reader takes a missing key as the empty string.\<close>

record task =
  task_type :: string
  details :: string
  additional :: string

subsection \<open>The task store (\<open>task_manager.py\<close>)\<close>

text \<open>
  \<open>self._tasks\<close> is a Python list.  The reordering methods are given on its contents; the
  index is a Python integer, so it may be negative.  Each returns the method's result
  together with the new contents.
\<close>

definition delete_task :: "int \<Rightarrow> 'a list \<Rightarrow> bool \<times> 'a list" where
  "delete_task index tasks =
     (if 0 \<le> index \<and> index < int (length tasks)
      then (True, take (nat index) tasks @ drop (nat index + 1) tasks)
      else (False, tasks))"

text \<open>The tuple assignment reads both elements first and then stores them crosswise.\<close>

definition move_task_up :: "int \<Rightarrow> 'a list \<Rightarrow> bool \<times> 'a list" where
  "move_task_up index tasks =
     (if 0 < index \<and> index < int (length tasks)
      then (True, tasks[nat index := tasks ! nat (index - 1),
                        nat (index - 1) := tasks ! nat index])
      else (False, tasks))"

definition move_task_down :: "int \<Rightarrow> 'a list \<Rightarrow> bool \<times> 'a list" where
  "move_task_down index tasks =
     (if 0 \<le> index \<and> index < int (length tasks) - 1
      then (True, tasks[nat index := tasks ! nat (index + 1),
                        nat (index + 1) := tasks ! nat index])
      else (False, tasks))"


subsection \<open>The store's objects\<close>

text \<open>
  \<open>get_tasks\<close> returns a new list object that holds the same dictionary objects as
  \<open>self._tasks\<close>.  To tell a new object from a shared one, lists and dictionaries live in a
  heap and are named by references; the manager holds the reference of its list.
\<close>

type_synonym ref = nat

record heap =
  dict_objs :: "ref \<Rightarrow> task"
  list_objs :: "ref \<Rightarrow> ref list"
  next_ref :: ref

record task_manager =
  tasks_attr :: ref

definition empty_heap :: heap where
  "empty_heap = \<lparr>dict_objs = (\<lambda>r. \<lparr>task_type = [], details = [], additional = []\<rparr>),
                  list_objs = (\<lambda>r. []), next_ref = 0\<rparr>"

text \<open>\<open>__init__\<close>: a new empty list.\<close>

definition init_manager :: "heap \<Rightarrow> task_manager \<times> heap" where
  "init_manager h =
     (\<lparr>tasks_attr = next_ref h\<rparr>,
      h\<lparr>list_objs := (list_objs h)(next_ref h := []), next_ref := next_ref h + 1\<rparr>)"

text \<open>\<open>add_task\<close>: a new dictionary, appended to the manager's list.\<close>

definition add_task :: "string \<Rightarrow> string \<Rightarrow> string \<Rightarrow> task_manager \<Rightarrow> heap \<Rightarrow> heap" where
  "add_task ttype dets addl tm h =
     h\<lparr>dict_objs := (dict_objs h)(next_ref h := \<lparr>task_type = ttype, details = dets, additional = addl\<rparr>),
       list_objs := (list_objs h)(tasks_attr tm := list_objs h (tasks_attr tm) @ [next_ref h]),
       next_ref := next_ref h + 1\<rparr>"

text \<open>\<open>get_tasks\<close>: \<open>self._tasks.copy()\<close> is a new list with the same elements.\<close>

definition get_tasks :: "task_manager \<Rightarrow> heap \<Rightarrow> ref \<times> heap" where
  "get_tasks tm h =
     (next_ref h,
      h\<lparr>list_objs := (list_objs h)(next_ref h := list_objs h (tasks_attr tm)), next_ref := next_ref h + 1\<rparr>)"

text \<open>\<open>get_task_by_index\<close>: \<open>self._tasks[index].copy()\<close> is a new dictionary.\<close>

definition get_task_by_index :: "int \<Rightarrow> task_manager \<Rightarrow> heap \<Rightarrow> ref option \<times> heap" where
  "get_task_by_index index tm h =
     (if 0 \<le> index \<and> index < int (length (list_objs h (tasks_attr tm)))
      then (Some (next_ref h),
            h\<lparr>dict_objs := (dict_objs h)(next_ref h := dict_objs h (list_objs h (tasks_attr tm) ! nat index)),
              next_ref := next_ref h + 1\<rparr>)
      else (None, h))"

text \<open>What a caller can do with a reference: change a list in place (any change of its
  elements), or store a value under a key of a dictionary.\<close>

definition list_mutate :: "ref \<Rightarrow> (ref list \<Rightarrow> ref list) \<Rightarrow> heap \<Rightarrow> heap" where
  "list_mutate r g h = h\<lparr>list_objs := (list_objs h)(r := g (list_objs h r))\<rparr>"

datatype key = Type | Details | Additional

fun store_key :: "key \<Rightarrow> string \<Rightarrow> task \<Rightarrow> task" where
  "store_key Type v t = t\<lparr>task_type := v\<rparr>"
| "store_key Details v t = t\<lparr>details := v\<rparr>"
| "store_key Additional v t = t\<lparr>additional := v\<rparr>"

definition dict_setitem :: "ref \<Rightarrow> key \<Rightarrow> string \<Rightarrow> heap \<Rightarrow> heap" where
  "dict_setitem d k v h = h\<lparr>dict_objs := (dict_objs h)(d := store_key k v (dict_objs h d))\<rparr>"

text \<open>The tasks of the store, as every later call of the manager reads them.\<close>

definition stored_tasks :: "task_manager \<Rightarrow> heap \<Rightarrow> task list" where
  "stored_tasks tm h = map (dict_objs h) (list_objs h (tasks_attr tm))"

subsection \<open>The text serializer (\<open>save_tasks\<close>, \<open>parse_text_to_tasks\<close>)\<close>

text \<open>
  \<open>f.write(s)\<close> appends \<open>s\<close> to the text of the open file, so the file under construction
  is a string that each write extends.  The time stamp that \<open>time.strftime\<close> returns is a
  parameter.
\<close>

definition write_header :: "string \<Rightarrow> string \<Rightarrow> string" where
  "write_header now f =
     (let f = f @ ''# AutoSpark Application - Task List\<newline>'';
          f = f @ ''# Generated on: '' @ now @ ''\<newline>'';
          f = f @ ''# Format: [Task Type] | [Details] | [Additional Info (optional)]\<newline>\<newline>''
      in f)"

text \<open>The loop over the tasks; \<open>if additional:\<close> holds for a non-empty string.\<close>

fun write_entries :: "task list \<Rightarrow> string \<Rightarrow> string" where
  "write_entries [] f = f"
| "write_entries (task # tasks) f =
     (let f = f @ ''['' @ task_type task @ ''] | '' @ details task;
          f = (if additional task \<noteq> [] then f @ '' | '' @ additional task else f);
          f = f @ ''\<newline>''
      in write_entries tasks f)"

text \<open>The text of the task-list file that \<open>save_tasks\<close> writes.\<close>

definition task_list_text :: "string \<Rightarrow> task list \<Rightarrow> string" where
  "task_list_text now tasks = write_entries tasks (write_header now [])"

text \<open>
  The body of the loop of \<open>parse_text_to_tasks\<close>, with the list \<open>tasks\<close> it appends to.
  \<open>line.find(']')\<close> is not negative where it is used, because the guard has checked that
  the line holds a closing bracket; \<open>parts\<close> is never empty, and has a second element
  exactly when \<open>rest\<close> holds a bar.
\<close>

definition parse_line :: "string \<Rightarrow> task list \<Rightarrow> task list" where
  "parse_line raw tasks =
     (let line = str_strip raw in
      if line = [] \<or> str_startswith line ''#'' then tasks
      else if str_startswith line ''['' \<and> CHR '']'' \<in> set line \<and> CHR ''|'' \<in> set line then
        (let task_type_end = str_find line CHR '']'';
             ttype = str_strip (take (nat task_type_end - 1) (drop 1 line));
             rest = str_strip (drop (nat (task_type_end + 1)) line);
             parts = map str_strip (str_split1 CHR ''|'' rest);
             dets = (if parts \<noteq> [] then parts ! 0 else []);
             addl = (if length parts > 1 \<and> CHR ''|'' \<in> set (parts ! 1)
                     then str_strip (str_split1 CHR ''|'' (parts ! 1) ! 0)
                     else if length parts > 1 then str_strip (parts ! 1)
                     else [])
         in tasks @ [\<lparr>task_type = ttype, details = dets, additional = addl\<rparr>])
      else tasks)"

definition parse_text_to_tasks :: "string \<Rightarrow> task list" where
  "parse_text_to_tasks content =
     fold parse_line (str_split NL (str_strip content)) []"

subsection \<open>Paths (\<open>os.path\<close>) and the file system\<close>

text \<open>
  \<open>os.path.splitext\<close> depends on the platform's separators only; it is modelled after the
  library's \<open>genericpath._splitext\<close>.  Its loop skips the dots that lead the file name
  and answers whether a character other than a dot stands before the last dot.
\<close>

datatype platform = Posix | Windows

fun sep :: "platform \<Rightarrow> char" where
  "sep Posix = CHR ''/''"
| "sep Windows = BSL"

fun altsep :: "platform \<Rightarrow> char option" where
  "altsep Posix = None"
| "altsep Windows = Some CHR ''/''"

function skip_dots :: "string \<Rightarrow> nat \<Rightarrow> nat \<Rightarrow> bool" where
  "skip_dots p filenameIndex dotIndex =
     (if filenameIndex < dotIndex
      then (if take 1 (drop filenameIndex p) \<noteq> ''.'' then True
            else skip_dots p (filenameIndex + 1) dotIndex)
      else False)"
  by pat_completeness auto
termination
  by (relation "measure (\<lambda>(p, filenameIndex, dotIndex). dotIndex - filenameIndex)") auto

declare skip_dots.simps [simp del]

definition splitext :: "platform \<Rightarrow> string \<Rightarrow> string \<times> string" where
  "splitext pf p =
     (let sepIndex = str_rfind p (sep pf);
          sepIndex = (case altsep pf of None \<Rightarrow> sepIndex
                      | Some a \<Rightarrow> max sepIndex (str_rfind p a));
          dotIndex = str_rfind p CHR ''.''
      in if dotIndex > sepIndex \<and> skip_dots p (nat (sepIndex + 1)) (nat dotIndex)
         then (take (nat dotIndex) p, drop (nat dotIndex) p)
         else (p, []))"

definition get_bat_path :: "platform \<Rightarrow> string \<Rightarrow> string" where
  "get_bat_path pf txt_file_path = (case splitext pf txt_file_path of (base, ext) \<Rightarrow> base @ ''.bat'')"

text \<open>
  The file system maps a path to the text of the file there; \<open>open(path, 'w')\<close> raises
  \<open>OSError\<close> on a path that cannot be written.  A file opened in a \<open>with\<close> block keeps
  what was written to it when the block is left by an exception.
\<close>

record filesystem =
  files :: "string \<rightharpoonup> string"
  writable :: "string \<Rightarrow> bool"

text \<open>Exceptions: the two that arise, and the wrapper \<open>Exception(prefix + str(e))\<close> that
  both methods raise in their handlers, kept with the exception it wraps.\<close>

datatype error = ValueError string | OSError string | Exception string error

subsection \<open>The compiler (\<open>convert_to_bat\<close>)\<close>

text \<open>Each definition below is the text one branch writes, one list element per
  \<open>write\<close> call, in the order of the calls.\<close>

definition write_url_code :: "string \<Rightarrow> string" where
  \<open>write_url_code url =
     (let no_protocol = \<not> (str_startswith url ''http://'' \<or> str_startswith url ''https://'' \<or>
                            str_startswith url ''ftp://'' \<or> str_startswith url ''file://'');
          url' = (if no_protocol then ''https://'' @ url else url)
      in concat
       [''echo Opening URL in default web browser...\<newline>'',
        (if no_protocol then ''echo No protocol specified, using https:// by default\<newline>'' else []),
        ''echo Using start command...\<newline>'',
        ''start "" "'' @ url' @ ''"\<newline>'',
        ''if %ERRORLEVEL% NEQ 0 (\<newline>'',
        ''    echo ERROR: Failed to open URL.\<newline>'',
        ''    echo URL: '' @ url' @ ''\<newline>'',
        '') else (\<newline>'',
        ''    echo Successfully opened URL: '' @ url' @ ''\<newline>'',
        '')\<newline>\<newline>'',
        '':url_end\<newline>''])\<close>

definition open_code :: "string \<Rightarrow> string" where
  \<open>open_code dets = ''start "" "'' @ dets @ ''"\<newline>''\<close>

text \<open>The second line of \<open>close_app\<close> is not an f-string in the source: the braces are
  written as they stand.\<close>

definition close_app_code :: "string \<Rightarrow> string" where
  \<open>close_app_code dets = concat
     [''taskkill /f /im "'' @ dets @ ''" >nul 2>&1\<newline>'',
      ''if %ERRORLEVEL% EQU 0 (echo Successfully closed {details}) else (echo Failed to close {details})\<newline>'']\<close>

definition delay_code :: "int \<Rightarrow> string" where
  \<open>delay_code seconds = concat
     [''echo Waiting for '' @ str_int seconds @ '' seconds...\<newline>'',
      ''timeout /t '' @ str_int seconds @ '' /nobreak >nul\<newline>'']\<close>

definition shutdown_code :: "string \<Rightarrow> string" where
  \<open>shutdown_code dets = concat
     [''echo System will shutdown in '' @ dets @ '' seconds...\<newline>'',
      ''shutdown /s /t '' @ dets @ ''\<newline>'']\<close>

definition restart_code :: "string \<Rightarrow> string" where
  \<open>restart_code dets = concat
     [''echo System will restart in '' @ dets @ '' seconds...\<newline>'',
      ''shutdown /r /t '' @ dets @ ''\<newline>'']\<close>

definition sleep_code :: string where
  \<open>sleep_code = concat
     [''echo Putting system to sleep...\<newline>'',
      ''rundll32.exe powrprof.dll,SetSuspendState 0,1,0\<newline>'']\<close>

definition screenshot_code :: "string \<Rightarrow> string" where
  \<open>screenshot_code dets =
     (let safe_path = str_replace CHR ''/'' BSL dets in concat
       [''echo Taking screenshot...\<newline>'',
        ''if not exist "'' @ safe_path @ ''" mkdir "'' @ safe_path @ ''"\<newline>'',
        ''powershell -NoProfile -ExecutionPolicy Bypass -Command "$ts=Get-Date -Format '' @ [BSL] @
          ''"yyyy-MM-dd_HH-mm-ss'' @ [BSL] @ ''"; '',
        ''$path='' @ [BSL] @ ''"'' @ safe_path @ [BSL] @ ''screenshot_$ts.png'' @ [BSL] @ ''"; '',
        ''[void][Reflection.Assembly]::LoadWithPartialName('' @ [BSL] @ ''"System.Windows.Forms'' @
          [BSL] @ ''"); '',
        ''[void][Reflection.Assembly]::LoadWithPartialName('' @ [BSL] @ ''"System.Drawing'' @
          [BSL] @ ''"); '',
        ''$bounds = [System.Windows.Forms.Screen]::PrimaryScreen.Bounds; '',
        ''$bmp = New-Object System.Drawing.Bitmap $bounds.Width, $bounds.Height; '',
        ''$g = [System.Drawing.Graphics]::FromImage($bmp); '',
        ''$g.CopyFromScreen($bounds.X, $bounds.Y, 0, 0, $bounds.Size); '',
        ''$bmp.Save($path); '',
        ''$g.Dispose(); $bmp.Dispose(); '',
        ''Write-Host '' @ [BSL] @ ''"Screenshot saved to: $path'' @ [BSL] @ ''""\<newline>'',
        ''if %ERRORLEVEL% NEQ 0 echo ERROR: Failed to take screenshot\<newline>\<newline>''])\<close>

definition clean_temp_code :: string where
  \<open>clean_temp_code = concat
     [''echo Cleaning temporary files...\<newline>'',
      ''del /q /f /s "%TEMP%'' @ [BSL] @ ''*" >nul 2>&1\<newline>'',
      ''echo Temporary files cleaned.\<newline>'']\<close>

definition security_scan_code :: "python \<Rightarrow> string \<Rightarrow> string" where
  \<open>security_scan_code py dets =
     (let scan_type = str_lower py dets;
          ps_command = (if scan_type = ''quick'' then ''Start-MpScan -ScanType QuickScan''
                        else if scan_type = ''full'' then ''Start-MpScan -ScanType FullScan''
                        else ''Start-MpScan -ScanType CustomScan'')
      in concat
       [''echo Running '' @ scan_type @ '' security scan...\<newline>'',
        ''powershell -Command "'' @ ps_command @ ''"\<newline>''])\<close>

definition delete_file_code :: "string \<Rightarrow> string" where
  \<open>delete_file_code dets =
     (let safe_path = str_replace CHR ''/'' BSL dets in concat
       [''echo Deleting file: '' @ safe_path @ ''\<newline>'',
        ''if exist "'' @ safe_path @ ''" (\<newline>'',
        ''  del /F /Q "'' @ safe_path @ ''"\<newline>'',
        ''  echo Return code: %ERRORLEVEL%\<newline>'',
        ''  if %ERRORLEVEL% NEQ 0 (\<newline>'',
        ''    echo ERROR: Failed to delete file with code %ERRORLEVEL%\<newline>'',
        ''  ) else (\<newline>'',
        ''    echo Successfully deleted file: '' @ safe_path @ ''\<newline>'',
        ''  )\<newline>'',
        '') else (\<newline>'',
        ''  echo WARNING: File not found: '' @ safe_path @ ''\<newline>'',
        '')\<newline>''])\<close>

definition empty_folder_code :: "string \<Rightarrow> string" where
  \<open>empty_folder_code dets =
     (let safe_path = str_replace CHR ''/'' BSL dets in concat
       [''echo Emptying folder: '' @ safe_path @ ''\<newline>'',
        ''if exist "'' @ safe_path @ ''" (\<newline>'',
        ''  echo Deleting all subfolders in: '' @ safe_path @ ''\<newline>'',
        ''  for /d %%i in ("'' @ safe_path @ [BSL] @ ''*") do (\<newline>'',
        ''    rmdir /s /q "%%i" >nul 2>&1\<newline>'',
        ''  )\<newline>'',
        ''  echo Deleting all files in: '' @ safe_path @ ''\<newline>'',
        ''  del /f /q "'' @ safe_path @ [BSL] @ ''*" >nul 2>&1\<newline>'',
        ''  echo Return code: %ERRORLEVEL%\<newline>'',
        ''  if %ERRORLEVEL% NEQ 0 (\<newline>'',
        ''    echo ERROR: Failed to empty folder with code %ERRORLEVEL%\<newline>'',
        ''  ) else (\<newline>'',
        ''    echo Successfully emptied folder: '' @ safe_path @ ''\<newline>'',
        ''  )\<newline>'',
        '') else (\<newline>'',
        ''  echo WARNING: Folder not found: '' @ safe_path @ ''\<newline>'',
        '')\<newline>''])\<close>

definition delete_folder_code :: "string \<Rightarrow> string" where
  \<open>delete_folder_code dets =
     (let safe_path = str_replace CHR ''/'' BSL dets in concat
       [''echo Deleting folder: '' @ safe_path @ ''\<newline>'',
        ''if exist "'' @ safe_path @ ''" (\<newline>'',
        ''  rmdir /s /q "'' @ safe_path @ ''"\<newline>'',
        ''  echo Return code: %ERRORLEVEL%\<newline>'',
        ''  if %ERRORLEVEL% NEQ 0 (\<newline>'',
        ''    echo ERROR: Failed to delete folder with code %ERRORLEVEL%\<newline>'',
        ''  ) else (\<newline>'',
        ''    echo Successfully deleted folder and its contents: '' @ safe_path @ ''\<newline>'',
        ''  )\<newline>'',
        '') else (\<newline>'',
        ''  echo WARNING: Folder not found: '' @ safe_path @ ''\<newline>'',
        '')\<newline>''])\<close>

text \<open>The dash in the warning of \<open>delete_folder_if_empty\<close> is U+2014, here its three UTF-8
  bytes.\<close>

definition delete_folder_if_empty_code :: "string \<Rightarrow> string" where
  \<open>delete_folder_if_empty_code dets =
     (let safe_path = str_replace CHR ''/'' BSL dets in concat
       [''echo Attempting to delete folder (only if empty): '' @ safe_path @ ''\<newline>'',
        ''if exist "'' @ safe_path @ ''" (\<newline>'',
        ''  rmdir /q "'' @ safe_path @ ''"\<newline>'',
        ''  if exist "'' @ safe_path @ ''" (\<newline>'',
        ''    echo WARNING: Could not delete folder '' @ safe_path @ '' '' @
          [CHR 0xE2, CHR 0x80, CHR 0x94] @ '' it may not be empty or is locked\<newline>'',
        ''  ) else (\<newline>'',
        ''    echo Successfully deleted empty folder: '' @ safe_path @ ''\<newline>'',
        ''  )\<newline>'',
        '') else (\<newline>'',
        ''  echo WARNING: Folder not found: '' @ safe_path @ ''\<newline>'',
        '')\<newline>''])\<close>

definition backup_folder_code :: "string \<Rightarrow> string \<Rightarrow> string" where
  \<open>backup_folder_code dets addl =
     (let safe_source = str_replace CHR ''/'' BSL dets;
          safe_dest = str_replace CHR ''/'' BSL addl
      in concat
       [''echo Backing up folder: '' @ safe_source @ ''\<newline>'',
        ''echo to: '' @ safe_dest @ ''\<newline>'',
        ''if not exist "'' @ safe_source @ ''" (\<newline>'',
        ''  echo ERROR: Source folder not found: '' @ safe_source @ ''\<newline>'',
        ''  goto :backup_error\<newline>'',
        '')\<newline>'',
        ''if not exist "'' @ safe_dest @ ''" (\<newline>'',
        ''  mkdir "'' @ safe_dest @ ''"\<newline>'',
        ''  if %ERRORLEVEL% NEQ 0 (\<newline>'',
        ''    echo ERROR: Could not create destination folder: '' @ safe_dest @ ''\<newline>'',
        ''    goto :backup_error\<newline>'',
        ''  )\<newline>'',
        '')\<newline>'',
        ''for %%I in ("'' @ safe_source @ ''") do set "source_name=%%~nxI"\<newline>'',
        ''set "dest_path='' @ safe_dest @ [BSL] @ ''%source_name%"\<newline>'',
        ''if not exist "%dest_path%" (\<newline>'',
        ''  mkdir "%dest_path%"\<newline>'',
        ''  if %ERRORLEVEL% NEQ 0 (\<newline>'',
        ''    echo ERROR: Could not create destination folder: %dest_path%\<newline>'',
        ''    goto :backup_error\<newline>'',
        ''  )\<newline>'',
        '')\<newline>'',
        ''xcopy "'' @ safe_source @ [BSL] @ ''*" "%dest_path%" /E /H /C /I /Y\<newline>'',
        ''if %ERRORLEVEL% NEQ 0 (\<newline>'',
        ''  echo ERROR: Backup operation failed\<newline>'',
        ''  goto :backup_error\<newline>'',
        '') else (\<newline>'',
        ''  echo Successfully backed up '' @ safe_source @ '' to %dest_path%\<newline>'',
        '')\<newline>'',
        ''goto :backup_end\<newline>'',
        '':backup_error\<newline>'',
        ''echo Backup operation failed\<newline>'',
        '':backup_end\<newline>''])\<close>

definition unknown_code :: "string \<Rightarrow> string" where
  \<open>unknown_code ttype = ''echo Unknown task type: '' @ ttype @ ''\<newline>''\<close>

text \<open>The chain of comparisons on the task's type.  Only the \<open>delay\<close> branch can raise:
  \<open>int(details)\<close> comes before its first write.\<close>

definition task_code :: "python \<Rightarrow> task \<Rightarrow> error + string" where
  \<open>task_code py task =
     (let ttype = task_type task; dets = details task; addl = additional task in
      if ttype = ''open_url'' then Inr (write_url_code dets)
      else if ttype = ''open_app'' then Inr (open_code dets)
      else if ttype = ''open_file'' then Inr (open_code dets)
      else if ttype = ''close_app'' then Inr (close_app_code dets)
      else if ttype = ''run_command'' then Inr (dets @ ''\<newline>'')
      else if ttype = ''delay'' then
        (case py_int py dets of
           None \<Rightarrow> Inl (ValueError dets)
         | Some seconds \<Rightarrow> Inr (delay_code seconds))
      else if ttype = ''shutdown'' then Inr (shutdown_code dets)
      else if ttype = ''restart'' then Inr (restart_code dets)
      else if ttype = ''sleep'' then Inr sleep_code
      else if ttype = ''screenshot'' then Inr (screenshot_code dets)
      else if ttype = ''clean_temp'' then Inr clean_temp_code
      else if ttype = ''security_scan'' then Inr (security_scan_code py dets)
      else if ttype = ''delete_file'' then Inr (delete_file_code dets)
      else if ttype = ''empty_folder'' then Inr (empty_folder_code dets)
      else if ttype = ''delete_folder'' then Inr (delete_folder_code dets)
      else if ttype = ''delete_folder_if_empty'' then Inr (delete_folder_if_empty_code dets)
      else if ttype = ''backup_folder'' then Inr (backup_folder_code dets addl)
      else Inr (unknown_code ttype))\<close>

text \<open>The two lines that announce task number \<open>i\<close>.\<close>

definition announce :: "nat \<Rightarrow> task \<Rightarrow> string" where
  \<open>announce i task = concat
     [''REM Task '' @ str_nat i @ '': '' @ task_type task @ ''\<newline>'',
      ''echo Executing Task '' @ str_nat i @ '': '' @ task_type task @ ''\<newline>'']\<close>

text \<open>
  The loop \<open>for i, task in enumerate(tasks, 1)\<close> on the text \<open>f\<close> written so far.  It
  returns the text at the end of the loop, or at the point where a task raised, with the
  exception.
\<close>

fun write_tasks :: "python \<Rightarrow> nat \<Rightarrow> task list \<Rightarrow> string \<Rightarrow> string \<times> error option" where
  "write_tasks py i [] f = (f, None)"
| "write_tasks py i (task # tasks) f =
     (let f = f @ announce i task in
      case task_code py task of
        Inl e \<Rightarrow> (f, Some e)
      | Inr code \<Rightarrow> write_tasks py (i + 1) tasks (f @ code @ ''echo.\<newline>\<newline>''))"

definition bat_header :: "string \<Rightarrow> string" where
  \<open>bat_header name = concat
     [''@echo off\<newline>'',
      ''echo AutoSpark Application - Task Execution\<newline>'',
      ''echo Generated from: '' @ name @ ''\<newline>'',
      ''echo Run time: %DATE% %TIME%\<newline>'',
      ''echo.\<newline>\<newline>'']\<close>

definition bat_footer :: string where
  \<open>bat_footer = concat [''echo All tasks completed.\<newline>'', ''pause\<newline>'']\<close>

text \<open>
  \<open>convert_to_bat\<close>.  \<open>os.path.basename\<close> only feeds the banner; it is the parameter
  \<open>basename\<close>.  The result is the path of the script, or the wrapped exception, and the
  file system after the call.
\<close>

definition convert_to_bat ::
  "python \<Rightarrow> platform \<Rightarrow> (string \<Rightarrow> string) \<Rightarrow> task list \<Rightarrow> string \<Rightarrow> filesystem
     \<Rightarrow> (error + string) \<times> filesystem" where
  "convert_to_bat py pf basename tasks txt_file_path fs =
     (let bat_file_path = get_bat_path pf txt_file_path in
      if \<not> writable fs bat_file_path
      then (Inl (Exception ''Error creating BAT file: '' (OSError bat_file_path)), fs)
      else
        (case write_tasks py 1 tasks (bat_header (basename txt_file_path)) of
           (f, Some e) \<Rightarrow>
             (Inl (Exception ''Error creating BAT file: '' e),
              fs\<lparr>files := (files fs)(bat_file_path \<mapsto> f)\<rparr>)
         | (f, None) \<Rightarrow>
             (Inr bat_file_path,
              fs\<lparr>files := (files fs)(bat_file_path \<mapsto> f @ bat_footer)\<rparr>)))"

text \<open>\<open>save_tasks\<close>: the task-list file is written and closed first, then the script is
  compiled; the handler wraps whatever either step raised.\<close>

definition save_tasks ::
  "python \<Rightarrow> platform \<Rightarrow> (string \<Rightarrow> string) \<Rightarrow> string \<Rightarrow> task list \<Rightarrow> string \<Rightarrow> filesystem
     \<Rightarrow> (error + string) \<times> filesystem" where
  "save_tasks py pf basename now tasks file_path0 fs =
     (let file_path = (if \<not> str_endswith (str_lower py file_path0) ''.txt''
                       then file_path0 @ ''.txt'' else file_path0) in
      if \<not> writable fs file_path
      then (Inl (Exception ''Error saving tasks to file: '' (OSError file_path)), fs)
      else
        (let fs = fs\<lparr>files := (files fs)(file_path \<mapsto> task_list_text now tasks)\<rparr> in
         case convert_to_bat py pf basename tasks file_path fs of
           (Inl e, fs) \<Rightarrow> (Inl (Exception ''Error saving tasks to file: '' e), fs)
         | (Inr bat, fs) \<Rightarrow> (Inr file_path, fs)))"

text \<open>\<open>posixpath.basename\<close>: what follows the last slash.\<close>

definition posix_basename :: "string \<Rightarrow> string" where
  "posix_basename p = drop (nat (str_rfind p CHR ''/'' + 1)) p"

text \<open>The index of the last separator of a path, as \<open>splitext\<close> computes it.\<close>

definition sep_index :: "platform \<Rightarrow> string \<Rightarrow> int" where
  "sep_index pf p =
     (case altsep pf of None \<Rightarrow> str_rfind p (sep pf)
      | Some a \<Rightarrow> max (str_rfind p (sep pf)) (str_rfind p a))"

text \<open>The path of the task-list file: \<open>.txt\<close> is added unless the path ends with it, in
  any letter case.\<close>

definition txt_path :: "python \<Rightarrow> string \<Rightarrow> string" where
  "txt_path py file_path =
     (if str_endswith (str_lower py file_path) ''.txt'' then file_path else file_path @ ''.txt'')"

text \<open>The path ends with a full stop and the letters \<open>t\<close>, \<open>x\<close>, \<open>t\<close>, each in either
  case.\<close>

definition ends_txt :: "string \<Rightarrow> bool" where
  "ends_txt p = str_endswith (map lower_char p) ''.txt''"

text \<open>A file system without files in which every path can be written.\<close>

definition empty_fs :: filesystem where
  "empty_fs = \<lparr>files = Map.empty, writable = (\<lambda>p. True)\<rparr>"

text \<open>An interpreter for the examples.  The examples use ASCII texts only, on which the
  built-in functions do not depend on the interpreter; the digit limit is the default.\<close>

definition example_python :: python where
  "example_python =
     \<lparr>lower_nonascii = map lower_char, int_nonascii = (\<lambda>s. None), max_str_digits = 4300\<rparr>"

subsection \<open>Vocabulary of the properties\<close>

text \<open>The text whose lines are \<open>ls\<close>, each ended by a line feed.\<close>

definition unlines :: "string list \<Rightarrow> string" where
  "unlines ls = concat (map (\<lambda>l. l @ [NL]) ls)"

text \<open>The three lines of the header of a task-list file.\<close>

definition header_lines :: "string \<Rightarrow> string list" where
  "header_lines now =
     [''# AutoSpark Application - Task List'',
      ''# Generated on: '' @ now,
      ''# Format: [Task Type] | [Details] | [Additional Info (optional)]'']"

text \<open>The line of a task in the form \<open>[kind] primary[ | secondary]\<close>, and the text a
  serializer that wrote this form would produce.\<close>

definition bracket_line :: "task \<Rightarrow> string" where
  "bracket_line t =
     ''['' @ task_type t @ ''] '' @ details t @
     (if additional t = [] then [] else '' | '' @ additional t)"

definition bracket_text :: "string \<Rightarrow> task list \<Rightarrow> string" where
  "bracket_text now tasks = unlines (header_lines now @ [[]] @ map bracket_line tasks)"

text \<open>The line of a task in the form \<open>[kind] | primary[ | secondary]\<close>.\<close>

definition bar_line :: "task \<Rightarrow> string" where
  "bar_line t =
     ''['' @ task_type t @ ''] | '' @ details t @
     (if additional t = [] then [] else '' | '' @ additional t)"

text \<open>No field of the task holds a line feed.\<close>

definition one_line_task :: "task \<Rightarrow> bool" where
  "one_line_task t = (NL \<notin> set (task_type t) \<and> NL \<notin> set (details t) \<and> NL \<notin> set (additional t))"

text \<open>
  Shapes of a trimmed line.  \<open>bar_after_bracket\<close> is the shape with an opening bracket, a
  closing bracket and a bar after the first closing bracket; \<open>bar_anywhere\<close> asks for the
  bar anywhere in the line.
\<close>

definition after_bracket :: "string \<Rightarrow> string" where
  "after_bracket line = drop 1 (dropWhile (\<lambda>x. x \<noteq> CHR '']'') line)"

definition bar_after_bracket :: "string \<Rightarrow> bool" where
  "bar_after_bracket line =
     (str_startswith line ''['' \<and> CHR '']'' \<in> set line \<and> CHR ''|'' \<in> set (after_bracket line))"

definition bar_anywhere :: "string \<Rightarrow> bool" where
  "bar_anywhere line =
     (str_startswith line ''['' \<and> CHR '']'' \<in> set line \<and> CHR ''|'' \<in> set line)"

text \<open>
  The fields read off a trimmed line: the kind between the opening bracket and the first
  closing bracket; the primary value between that bracket and the first bar after it (all
  that follows the bracket when no bar does); the secondary value after that bar, up to a
  second bar if there is one.  Each is trimmed.
\<close>

definition extract_fields :: "string \<Rightarrow> task" where
  "extract_fields line =
     (let rest = str_strip (after_bracket line);
          remainder = str_strip (drop 1 (dropWhile (\<lambda>x. x \<noteq> CHR ''|'') rest))
      in \<lparr>task_type = str_strip (takeWhile (\<lambda>x. x \<noteq> CHR '']'') (drop 1 line)),
          details = str_strip (takeWhile (\<lambda>x. x \<noteq> CHR ''|'') rest),
          additional = str_strip (takeWhile (\<lambda>x. x \<noteq> CHR ''|'') remainder)\<rparr>)"

definition line_tasks :: "string \<Rightarrow> task list" where
  "line_tasks raw = (if bar_anywhere (str_strip raw) then [extract_fields (str_strip raw)] else [])"

text \<open>
  Vocabulary for the compiled script.  \<open>occurs x s\<close>: the text \<open>x\<close> stands somewhere in
  \<open>s\<close>; \<open>occurs_before x y s\<close>: \<open>x\<close> stands in \<open>s\<close> and \<open>y\<close> stands after that
  occurrence.  \<open>switches s\<close> lists, in order, the character after each slash of \<open>s\<close>: the
  command switches of a text whose paths hold no slash.
\<close>

fun occurs :: "string \<Rightarrow> string \<Rightarrow> bool" where
  "occurs x [] = (x = [])"
| "occurs x (c # s) = (str_startswith (c # s) x \<or> occurs x s)"

fun occurs_before :: "string \<Rightarrow> string \<Rightarrow> string \<Rightarrow> bool" where
  "occurs_before x y [] = (x = [] \<and> y = [])"
| "occurs_before x y (c # s) =
     ((str_startswith (c # s) x \<and> occurs y (drop (length x) (c # s))) \<or> occurs_before x y s)"

fun switches :: "string \<Rightarrow> string" where
  "switches (x # y # r) = (if x = CHR ''/'' then y # switches (y # r) else switches (y # r))"
| "switches r = []"

text \<open>The address has one of the four protocol prefixes; the address that is launched.\<close>

definition has_protocol :: "string \<Rightarrow> bool" where
  "has_protocol url =
     (\<exists>p \<in> set [''http://'', ''https://'', ''ftp://'', ''file://'']. str_startswith url p)"

definition launch_url :: "string \<Rightarrow> string" where
  "launch_url url = (if has_protocol url then url else ''https://'' @ url)"

text \<open>The kinds the compiler knows.\<close>

definition known_kinds :: "string list" where
  "known_kinds =
     [''open_url'', ''open_app'', ''open_file'', ''close_app'', ''run_command'', ''delay'',
      ''shutdown'', ''restart'', ''sleep'', ''screenshot'', ''clean_temp'', ''security_scan'',
      ''delete_file'', ''empty_folder'', ''delete_folder'', ''delete_folder_if_empty'',
      ''backup_folder'']"

text \<open>A task whose compilation raises: a \<open>delay\<close> whose value \<open>int\<close> rejects.\<close>

definition bad_delay :: "python \<Rightarrow> task \<Rightarrow> bool" where
  "bad_delay py t = (task_type t = ''delay'' \<and> py_int py (details t) = None)"

text \<open>The block of task number \<open>i\<close> in the script: the announcement, the task's code and
  the closing \<open>echo.\<close> with its empty line; the blocks of a sequence numbered from \<open>i\<close>.\<close>

definition block :: "python \<Rightarrow> nat \<Rightarrow> task \<Rightarrow> string" where
  "block py i t =
     announce i t @ (case task_code py t of Inl e \<Rightarrow> [] | Inr code \<Rightarrow> code @ ''echo.\<newline>\<newline>'')"

fun blocks :: "python \<Rightarrow> nat \<Rightarrow> task list \<Rightarrow> string list" where
  "blocks py i [] = []"
| "blocks py i (t # ts) = block py i t # blocks py (i + 1) ts"

section \<open>Properties\<close>

subsection \<open>Trimming\<close>

lemma lstrip_Nil: "lstrip [] = []"
  by (simp add: lstrip.simps whitespace_def str_startswith_def)

lemma rstrip_Nil: "rstrip [] = []"
  by (simp add: rstrip.simps whitespace_def str_endswith_def)

lemma lstrip_plain:
  "c \<notin> set [CHR 0x09, CHR 0x0A, CHR 0x0B, CHR 0x0C, CHR 0x0D, CHR 0x1C, CHR 0x1D, CHR 0x1E,
              CHR 0x1F, CHR 0x20, CHR 0xC2, CHR 0xE1, CHR 0xE2, CHR 0xE3]
   \<Longrightarrow> lstrip (c # s) = c # s"
  by (subst lstrip.simps) (simp add: whitespace_def str_startswith_def)

lemma lstrip_space:
  "c \<in> set [CHR 0x09, CHR 0x0A, CHR 0x0B, CHR 0x0C, CHR 0x0D, CHR 0x1C, CHR 0x1D, CHR 0x1E,
              CHR 0x1F, CHR 0x20]
   \<Longrightarrow> lstrip (c # s) = lstrip s"
  apply (subst lstrip.simps)
  apply (simp only: set_simps insert_iff empty_iff)
  apply (elim disjE)
  apply (simp_all add: whitespace_def str_startswith_def)
  done

lemma whitespace_nonempty: "w \<in> set whitespace \<Longrightarrow> w \<noteq> []"
  by (auto simp: whitespace_def)

lemma endswith_last:
  assumes "str_endswith s w" and "w \<noteq> []"
  shows "last s = last w"
proof -
  from assms have d: "drop (length s - length w) s = w" and le: "length w \<le> length s"
    by (auto simp: str_endswith_def)
  from assms(2) have "0 < length w" by simp
  with le have "length s - length w < length s" by linarith
  then have "last (drop (length s - length w) s) = last s"
    by (intro last_drop)
  with d show ?thesis by simp
qed

lemma rstrip_plain:
  assumes "last s \<notin> set [CHR 0x09, CHR 0x0A, CHR 0x0B, CHR 0x0C, CHR 0x0D, CHR 0x1C, CHR 0x1D,
                         CHR 0x1E, CHR 0x1F, CHR 0x20, CHR 0x85, CHR 0xA0, CHR 0x80, CHR 0x81,
                         CHR 0x82, CHR 0x83, CHR 0x84, CHR 0x86, CHR 0x87, CHR 0x88, CHR 0x89,
                         CHR 0x8A, CHR 0xA8, CHR 0xA9, CHR 0xAF, CHR 0x9F]"
  shows "rstrip s = s"
proof -
  have "\<not> (\<exists>w \<in> set whitespace. str_endswith s w)"
  proof
    assume "\<exists>w \<in> set whitespace. str_endswith s w"
    then obtain w where w: "w \<in> set whitespace" "str_endswith s w" by blast
    then have "last s = last w"
      by (intro endswith_last whitespace_nonempty)
    with w(1) assms show False by (auto simp: whitespace_def)
  qed
  then have "List.find (str_endswith s) whitespace = None"
    by (simp add: find_None_iff)
  then show ?thesis
    by (subst rstrip.simps) simp
qed

lemma rstrip_space:
  assumes "s \<noteq> []"
    and "last s \<in> set [CHR 0x09, CHR 0x0A, CHR 0x0B, CHR 0x0C, CHR 0x0D, CHR 0x1C, CHR 0x1D,
                       CHR 0x1E, CHR 0x1F, CHR 0x20]"
  shows "rstrip s = rstrip (butlast s)"
proof -
  from assms(1) obtain b c where s: "s = b @ [c]"
    by (cases s rule: rev_cases) auto
  with assms(2) have c: "c \<in> set [CHR 0x09, CHR 0x0A, CHR 0x0B, CHR 0x0C, CHR 0x0D, CHR 0x1C,
                       CHR 0x1D, CHR 0x1E, CHR 0x1F, CHR 0x20]"
    by simp
  then have "List.find (str_endswith (b @ [c])) whitespace = Some [c]"
    apply (simp only: set_simps insert_iff empty_iff)
    apply (elim disjE)
    apply (simp_all add: whitespace_def str_endswith_def)
    done
  then show ?thesis
    unfolding s by (subst rstrip.simps) simp
qed

lemmas strip_eval = str_strip_def lstrip_Nil rstrip_Nil lstrip_plain lstrip_space rstrip_plain
  rstrip_space


subsection \<open>Reordering\<close>

lemma swap_back:
  assumes "Suc j < length xs"
  shows "(xs[Suc j := xs ! j, j := xs ! Suc j])
           [j := (xs[Suc j := xs ! j, j := xs ! Suc j]) ! Suc j,
            Suc j := (xs[Suc j := xs ! j, j := xs ! Suc j]) ! j] = xs"
  using assms by (simp add: list_eq_iff_nth_eq nth_list_update)

text \<open>
  Claim C8.  For every sequence and every index \<open>i\<close> with \<open>0 < i < length\<close>, moving the task
  at \<open>i\<close> up succeeds, and moving the task then at \<open>i - 1\<close> down succeeds and restores the
  original sequence.  Moving up at index 0 and moving down at the last index (which is
  \<open>-1\<close> for the empty sequence) fail and leave the sequence as it was.
\<close>

theorem move_up_then_down_restores:
  "(0 < i \<and> i < int (length xs) \<longrightarrow>
      fst (move_task_up i xs) = True \<and>
      move_task_down (i - 1) (snd (move_task_up i xs)) = (True, xs)) \<and>
   move_task_up 0 xs = (False, xs) \<and>
   move_task_down (int (length xs) - 1) xs = (False, xs)"
proof (intro conjI impI)
  assume h: "0 < i \<and> i < int (length xs)"
  define j where "j = nat (i - 1)"
  have ij: "nat i = Suc j" "nat (i - 1) = j" "nat (i - 1 + 1) = Suc j" "Suc j < length xs"
    using h by (auto simp: j_def)
  show "fst (move_task_up i xs) = True"
    using h by (simp add: move_task_up_def)
  have up: "snd (move_task_up i xs) = xs[Suc j := xs ! j, j := xs ! Suc j]"
    using h ij by (simp add: move_task_up_def)
  have guard: "0 \<le> i - 1 \<and> i - 1 < int (length (xs[Suc j := xs ! j, j := xs ! Suc j])) - 1"
    using h by simp
  show "move_task_down (i - 1) (snd (move_task_up i xs)) = (True, xs)"
    unfolding up move_task_down_def using guard ij swap_back [OF ij(4)]
    by simp
next
  show "move_task_up 0 xs = (False, xs)"
    by (simp add: move_task_up_def)
next
  show "move_task_down (int (length xs) - 1) xs = (False, xs)"
    by (simp add: move_task_down_def)
qed

theorem move_up_then_down_restores_witness:
  "(0::int) < 2 \<and> (2::int) < int (length [''a'', ''b'', ''c'']) \<and>
   fst (move_task_up 2 [''a'', ''b'', ''c'']) = True \<and>
   snd (move_task_up 2 [''a'', ''b'', ''c'']) = [''a'', ''c'', ''b''] \<and>
   move_task_down (2 - 1) (snd (move_task_up 2 [''a'', ''b'', ''c''])) = (True, [''a'', ''b'', ''c''])"
proof -
  have h: "(0::int) < 2 \<and> (2::int) < int (length [''a'', ''b'', ''c''])" by simp
  have up: "snd (move_task_up 2 [''a'', ''b'', ''c'']) = [''a'', ''c'', ''b'']"
    by (simp add: move_task_up_def)
  from move_up_then_down_restores [of 2 "[''a'', ''b'', ''c'']"] h
  show ?thesis using up by simp
qed

subsection \<open>The text of a task-list file\<close>

lemma write_entries_step:
  "write_entries (t # ts) f = write_entries ts (f @ bar_line t @ [NL])"
  by (cases "additional t = []") (simp_all add: Let_def bar_line_def)

lemma write_entries_unlines: "write_entries ts f = f @ unlines (map bar_line ts)"
proof (induction ts arbitrary: f)
  case Nil
  show ?case by (simp add: unlines_def)
next
  case (Cons t ts)
  have "write_entries (t # ts) f = write_entries ts (f @ bar_line t @ [NL])"
    by (rule write_entries_step)
  also have "\<dots> = (f @ bar_line t @ [NL]) @ unlines (map bar_line ts)"
    by (rule Cons.IH)
  also have "\<dots> = f @ unlines (map bar_line (t # ts))"
    by (simp add: unlines_def)
  finally show ?case .
qed

lemma task_list_text_unlines:
  "task_list_text now tasks = unlines (header_lines now @ [[]] @ map bar_line tasks)"
proof -
  have "write_header now [] = unlines (header_lines now @ [[]])"
    by (simp add: write_header_def unlines_def header_lines_def)
  then have "task_list_text now tasks =
               unlines (header_lines now @ [[]]) @ unlines (map bar_line tasks)"
    by (simp only: task_list_text_def write_entries_unlines)
  then show ?thesis
    by (simp add: unlines_def)
qed

lemma str_split_line: "c \<notin> set l \<Longrightarrow> str_split c (l @ c # r) = l # str_split c r"
  by (induction l) auto

lemma str_split_unlines:
  "\<forall>l \<in> set ls. NL \<notin> set l \<Longrightarrow> str_split NL (unlines ls) = ls @ [[]]"
proof (induction ls)
  case Nil
  show ?case by (simp add: unlines_def)
next
  case (Cons l ls)
  have "unlines (l # ls) = l @ NL # unlines ls"
    by (simp add: unlines_def)
  then show ?case
    using Cons str_split_line [of NL l "unlines ls"] by simp
qed

text \<open>
  Claim C3, as stated, asks for task lines of the form \<open>[kind] primary\<close>.  The file
  written for the single task \<open>delay 3\<close> is not the text with such lines: the code puts
  a bar between the closing bracket and the primary value.
\<close>

theorem serialize_bracket_form_counterexample:
  "task_list_text ''2024-01-01 00:00:00''
     [\<lparr>task_type = ''delay'', details = ''3'', additional = []\<rparr>]
   \<noteq> bracket_text ''2024-01-01 00:00:00''
     [\<lparr>task_type = ''delay'', details = ''3'', additional = []\<rparr>]"
  by (simp add: task_list_text_def write_header_def bracket_text_def unlines_def
      header_lines_def bracket_line_def)

text \<open>
  Claim C3, amended.  For every time stamp and task sequence the file's text is the three
  header lines, an empty line, and then for each task in order the line
  \<open>[kind] | primary\<close>, followed by \<open> | secondary\<close> exactly when the secondary value is not
  empty, every line ended by a line feed.  When neither the time stamp nor a field holds a
  line feed, cutting the text at the line feeds gives exactly these lines (and the empty
  piece after the last line feed): one line per task.
\<close>

theorem serialize_bar_form:
  "task_list_text now tasks = unlines (header_lines now @ [[]] @ map bar_line tasks) \<and>
   (NL \<notin> set now \<and> (\<forall>t \<in> set tasks. one_line_task t) \<longrightarrow>
      str_split NL (task_list_text now tasks)
        = header_lines now @ [[]] @ map bar_line tasks @ [[]])"
proof (intro conjI impI)
  show "task_list_text now tasks = unlines (header_lines now @ [[]] @ map bar_line tasks)"
    by (rule task_list_text_unlines)
next
  assume h: "NL \<notin> set now \<and> (\<forall>t \<in> set tasks. one_line_task t)"
  have "\<forall>l \<in> set (header_lines now @ [[]] @ map bar_line tasks). NL \<notin> set l"
    using h by (auto simp: header_lines_def bar_line_def one_line_task_def)
  then show "str_split NL (task_list_text now tasks)
               = header_lines now @ [[]] @ map bar_line tasks @ [[]]"
    using str_split_unlines [of "header_lines now @ [[]] @ map bar_line tasks"]
    by (simp add: task_list_text_unlines)
qed

theorem serialize_bar_form_witness:
  "NL \<notin> set ''2024-01-01 00:00:00'' \<and>
   one_line_task \<lparr>task_type = ''delay'', details = ''3'', additional = []\<rparr> \<and>
   one_line_task \<lparr>task_type = ''backup_folder'', details = ''a'', additional = ''b''\<rparr> \<and>
   str_split NL (task_list_text ''2024-01-01 00:00:00''
      [\<lparr>task_type = ''delay'', details = ''3'', additional = []\<rparr>,
       \<lparr>task_type = ''backup_folder'', details = ''a'', additional = ''b''\<rparr>])
   = [''# AutoSpark Application - Task List'',
      ''# Generated on: 2024-01-01 00:00:00'',
      ''# Format: [Task Type] | [Details] | [Additional Info (optional)]'',
      [], ''[delay] | 3'', ''[backup_folder] | a | b'', []]"
proof -
  let ?ts = "[\<lparr>task_type = ''delay'', details = ''3'', additional = []\<rparr>,
       \<lparr>task_type = ''backup_folder'', details = ''a'', additional = ''b''\<rparr>]"
  have h: "NL \<notin> set ''2024-01-01 00:00:00'' \<and> (\<forall>t \<in> set ?ts. one_line_task t)"
    by (simp add: one_line_task_def)
  with serialize_bar_form [of "''2024-01-01 00:00:00''" ?ts]
  have "str_split NL (task_list_text ''2024-01-01 00:00:00'' ?ts)
        = header_lines ''2024-01-01 00:00:00'' @ [[]] @ map bar_line ?ts @ [[]]"
    by blast
  then show ?thesis
    using h by (simp add: header_lines_def bar_line_def)
qed

subsection \<open>Reading a task-list file\<close>

lemma bracket_slices:
  assumes "CHR '']'' \<in> set l"
  shows "take (nat (str_find (CHR ''['' # l) CHR '']'') - 1) (drop 1 (CHR ''['' # l))
           = takeWhile (\<lambda>x. x \<noteq> CHR '']'') (drop 1 (CHR ''['' # l))"
    and "drop (nat (str_find (CHR ''['' # l) CHR '']'' + 1)) (CHR ''['' # l)
           = after_bracket (CHR ''['' # l)"
proof -
  define n where "n = length (takeWhile (\<lambda>x. x \<noteq> CHR '']'') l)"
  have idx: "str_find (CHR ''['' # l) CHR '']'' = int (Suc n)"
    using assms by (simp add: str_find_def n_def)
  have e1: "nat (str_find (CHR ''['' # l) CHR '']'') - 1 = n"
    and e2: "nat (str_find (CHR ''['' # l) CHR '']'' + 1) = Suc (Suc n)"
    by (simp_all add: idx)
  have "take n l = takeWhile (\<lambda>x. x \<noteq> CHR '']'') l"
    by (simp add: n_def takeWhile_eq_take [symmetric])
  then show "take (nat (str_find (CHR ''['' # l) CHR '']'') - 1) (drop 1 (CHR ''['' # l))
           = takeWhile (\<lambda>x. x \<noteq> CHR '']'') (drop 1 (CHR ''['' # l))"
    unfolding e1 by simp
  have "drop (Suc n) l = drop 1 (dropWhile (\<lambda>x. x \<noteq> CHR '']'') l)"
    by (simp add: n_def dropWhile_eq_drop)
  then show "drop (nat (str_find (CHR ''['' # l) CHR '']'' + 1)) (CHR ''['' # l)
           = after_bracket (CHR ''['' # l)"
    unfolding e2 by (simp add: after_bracket_def)
qed

lemma split1_pieces:
  "CHR ''|'' \<in> set s \<Longrightarrow>
     map str_strip (str_split1 CHR ''|'' s)
       = [str_strip (takeWhile (\<lambda>x. x \<noteq> CHR ''|'') s),
          str_strip (drop 1 (dropWhile (\<lambda>x. x \<noteq> CHR ''|'') s))]"
  "CHR ''|'' \<notin> set s \<Longrightarrow> map str_strip (str_split1 CHR ''|'' s) = [str_strip s]"
  "CHR ''|'' \<in> set s \<Longrightarrow> str_split1 CHR ''|'' s ! 0 = takeWhile (\<lambda>x. x \<noteq> CHR ''|'') s"
  by (simp_all add: str_split1_def)

lemma no_bar:
  assumes "CHR ''|'' \<notin> set s"
  shows "takeWhile (\<lambda>x. x \<noteq> CHR ''|'') s = s" and "dropWhile (\<lambda>x. x \<noteq> CHR ''|'') s = []"
  using assms by auto

lemma strip_empty: "str_strip [] = []"
  by (simp add: str_strip_def lstrip_Nil rstrip_Nil)

lemma parse_line_tasks: "parse_line raw tasks = tasks @ line_tasks raw"
proof (cases "bar_anywhere (str_strip raw)")
  case False
  then show ?thesis
    by (auto simp: parse_line_def line_tasks_def bar_anywhere_def Let_def)
next
  case True
  then obtain l where line: "str_strip raw = CHR ''['' # l"
    and br: "CHR '']'' \<in> set l"
    by (cases "str_strip raw") (auto simp: bar_anywhere_def str_startswith_def)
  define rest where "rest = str_strip (after_bracket (str_strip raw))"
  define remainder where "remainder = str_strip (drop 1 (dropWhile (\<lambda>x. x \<noteq> CHR ''|'') rest))"
  have k1: "take (nat (str_find (str_strip raw) CHR '']'') - 1) (drop 1 (str_strip raw))
              = takeWhile (\<lambda>x. x \<noteq> CHR '']'') (drop 1 (str_strip raw))"
    and k2: "str_strip (drop (nat (str_find (str_strip raw) CHR '']'' + 1)) (str_strip raw)) = rest"
    using bracket_slices [OF br] by (simp_all only: line rest_def)
  have guard: "\<not> (str_strip raw = [] \<or> str_startswith (str_strip raw) ''#'')"
    "str_startswith (str_strip raw) ''['' \<and> CHR '']'' \<in> set (str_strip raw) \<and>
       CHR ''|'' \<in> set (str_strip raw)"
    using True line by (simp_all add: str_startswith_def bar_anywhere_def)
  have code: "parse_line raw tasks =
      (let parts = map str_strip (str_split1 CHR ''|'' rest) in
       tasks @ [\<lparr>task_type = str_strip (takeWhile (\<lambda>x. x \<noteq> CHR '']'') (drop 1 (str_strip raw))),
                details = (if parts \<noteq> [] then parts ! 0 else []),
                additional = (if length parts > 1 \<and> CHR ''|'' \<in> set (parts ! 1)
                     then str_strip (str_split1 CHR ''|'' (parts ! 1) ! 0)
                     else if length parts > 1 then str_strip (parts ! 1)
                     else [])\<rparr>])"
    unfolding parse_line_def Let_def k1 k2 using guard by simp
  have spec: "line_tasks raw =
      [\<lparr>task_type = str_strip (takeWhile (\<lambda>x. x \<noteq> CHR '']'') (drop 1 (str_strip raw))),
        details = str_strip (takeWhile (\<lambda>x. x \<noteq> CHR ''|'') rest),
        additional = str_strip (takeWhile (\<lambda>x. x \<noteq> CHR ''|'') remainder)\<rparr>]"
    using True by (simp add: line_tasks_def extract_fields_def Let_def rest_def remainder_def)
  show ?thesis
  proof (cases "CHR ''|'' \<in> set rest")
    case bar: True
    show ?thesis
    proof (cases "CHR ''|'' \<in> set remainder")
      case True
      with bar show ?thesis
        unfolding code spec remainder_def by (simp add: split1_pieces Let_def)
    next
      case False
      with bar show ?thesis
        unfolding code spec remainder_def by (simp add: split1_pieces no_bar Let_def)
    qed
  next
    case False
    then have "remainder = []"
      by (simp add: remainder_def no_bar strip_empty)
    with False show ?thesis
      unfolding code spec by (simp add: split1_pieces no_bar strip_empty Let_def)
  qed
qed

lemma fold_parse_line: "fold parse_line ls acc = acc @ concat (map line_tasks ls)"
  by (induction ls arbitrary: acc) (simp_all add: parse_line_tasks)

text \<open>
  Claim C4, as stated, lets the parser accept only lines with a bar after the first closing
  bracket.  The line \<open>[a|b] c\<close> has its only bar inside the brackets, and the parser
  accepts it: the guard asks for a bar anywhere in the line.
\<close>

theorem parse_bar_in_brackets_counterexample:
  "\<not> bar_after_bracket (str_strip ''[a|b] c'') \<and>
   parse_text_to_tasks ''[a|b] c'' = [\<lparr>task_type = ''a|b'', details = ''c'', additional = []\<rparr>]"
  by (simp add: parse_text_to_tasks_def strip_eval parse_line_def str_startswith_def
      str_find_def str_split1_def bar_after_bracket_def after_bracket_def)

text \<open>
  Claim C4, amended.  For every text, the parser trims the text, cuts it at the line
  feeds, trims each line, and returns in order one task for each line that starts with an
  opening bracket and holds a closing bracket and a bar anywhere; every other line (blank
  lines and comment lines among them) gives nothing and no error.  The task of an accepted
  line has the fields of \<open>extract_fields\<close>: the kind is the trimmed text between the
  opening bracket and the first closing bracket, the primary value the trimmed text
  between that bracket and the first bar after it, or all the trimmed text after the
  bracket when no bar follows, and the secondary value the trimmed text after that bar up
  to a second bar, empty when there is no such bar.  Every line of the shape the claim
  names is accepted.
\<close>

theorem parse_text_lines:
  "parse_text_to_tasks content = concat (map line_tasks (str_split NL (str_strip content))) \<and>
   (\<forall>line. bar_after_bracket line \<longrightarrow> bar_anywhere line)"
  by (auto simp: parse_text_to_tasks_def fold_parse_line bar_after_bracket_def bar_anywhere_def
      after_bracket_def dest: set_dropWhileD in_set_dropD)

lemma strip_nbsp_example:
  "str_strip (CHR 0xC2 # CHR 0xA0 # ''[k] p | s'' @ [CHR 0xE2, CHR 0x80, CHR 0x83])
     = ''[k] p | s''"
  by (simp add: str_strip_def lstrip.simps rstrip.simps whitespace_def str_startswith_def
      str_endswith_def)

theorem parse_text_lines_witness:
  "bar_after_bracket ''[k] p | s | t'' \<and> bar_anywhere ''[k] p | s | t'' \<and>
   parse_text_to_tasks (CHR 0xC2 # CHR 0xA0 # ''[k] p | s'' @ [CHR 0xE2, CHR 0x80, CHR 0x83])
     = [\<lparr>task_type = ''k'', details = ''p'', additional = ''s''\<rparr>] \<and>
   parse_text_to_tasks ''# c\<newline>\<newline>  [k] p | s | t\<newline>[k] q\<newline>[a|b] c\<newline>k] p | s''
     = [\<lparr>task_type = ''k'', details = ''p'', additional = ''s''\<rparr>,
        \<lparr>task_type = ''a|b'', details = ''c'', additional = []\<rparr>]"
proof -
  have shape: "bar_after_bracket ''[k] p | s | t''"
    by (simp add: bar_after_bracket_def after_bracket_def str_startswith_def)
  from parse_text_lines [of "''# c\<newline>\<newline>  [k] p | s | t\<newline>[k] q\<newline>[a|b] c\<newline>k] p | s''"]
  have eq: "parse_text_to_tasks ''# c\<newline>\<newline>  [k] p | s | t\<newline>[k] q\<newline>[a|b] c\<newline>k] p | s''
        = concat (map line_tasks (str_split NL
            (str_strip ''# c\<newline>\<newline>  [k] p | s | t\<newline>[k] q\<newline>[a|b] c\<newline>k] p | s'')))"
    and sub: "bar_after_bracket ''[k] p | s | t'' \<longrightarrow> bar_anywhere ''[k] p | s | t''"
    by blast+
  have "concat (map line_tasks (str_split NL
            (str_strip ''# c\<newline>\<newline>  [k] p | s | t\<newline>[k] q\<newline>[a|b] c\<newline>k] p | s'')))
        = [\<lparr>task_type = ''k'', details = ''p'', additional = ''s''\<rparr>,
           \<lparr>task_type = ''a|b'', details = ''c'', additional = []\<rparr>]"
    by (simp add: strip_eval line_tasks_def bar_anywhere_def str_startswith_def
        extract_fields_def after_bracket_def)
  moreover have "parse_text_to_tasks
            (CHR 0xC2 # CHR 0xA0 # ''[k] p | s'' @ [CHR 0xE2, CHR 0x80, CHR 0x83])
        = [\<lparr>task_type = ''k'', details = ''p'', additional = ''s''\<rparr>]"
    unfolding parse_text_to_tasks_def strip_nbsp_example
    by (simp add: strip_eval parse_line_def str_startswith_def str_find_def str_split1_def)
  ultimately show ?thesis
    using eq shape sub by simp
qed

subsection \<open>Saving and loading again\<close>

text \<open>
  Claim C1 (round trip).  The claim fails on the code.  The file written for the single
  task \<open>open_url example.com\<close> holds the line \<open>[open_url] | example.com\<close>; the parser cuts
  what follows the bracket at the first bar, which is the bar the writer put there, so it
  reads an empty primary value and takes the primary value for the secondary one.
\<close>

theorem round_trip_fails:
  "parse_text_to_tasks (task_list_text ''2024-01-01 00:00:00''
      [\<lparr>task_type = ''open_url'', details = ''example.com'', additional = []\<rparr>])
   = [\<lparr>task_type = ''open_url'', details = [], additional = ''example.com''\<rparr>]"
  by (simp add: parse_text_to_tasks_def task_list_text_def write_header_def strip_eval
      parse_line_def str_startswith_def str_find_def str_split1_def)

subsection \<open>The list that \<open>get_tasks\<close> returns\<close>

text \<open>A change of the returned list object, whatever it is, leaves the store's tasks as
  they were: the list is a new object.\<close>

lemma get_tasks_list_is_new:
  assumes "tasks_attr tm < next_ref h" and "get_tasks tm h = (r, h')"
  shows "stored_tasks tm (list_mutate r g h') = stored_tasks tm h"
  using assms by (auto simp: get_tasks_def list_mutate_def stored_tasks_def)

text \<open>
  Claim C9 (defensive copy).  The claim fails on the code for the task records.  A manager
  holds the one task \<open>delay 3\<close>; the caller takes the list from \<open>get_tasks\<close> and stores
  \<open>x\<close> under the key \<open>details\<close> of its first element.  The store's own task now has the
  details \<open>x\<close>: the returned list holds the very dictionaries of the store.
\<close>

theorem get_tasks_shares_records:
  "(let (tm, h0) = init_manager empty_heap;
        h1 = add_task ''delay'' ''3'' [] tm h0;
        (r, h2) = get_tasks tm h1;
        h3 = dict_setitem (list_objs h2 r ! 0) Details ''x'' h2
    in stored_tasks tm h2 = [\<lparr>task_type = ''delay'', details = ''3'', additional = []\<rparr>] \<and>
       stored_tasks tm h3 = [\<lparr>task_type = ''delay'', details = ''x'', additional = []\<rparr>])"
  by (simp add: init_manager_def empty_heap_def add_task_def get_tasks_def dict_setitem_def
      stored_tasks_def)

subsection \<open>The compiler's loop\<close>

lemma task_code_bad: "bad_delay py t \<Longrightarrow> task_code py t = Inl (ValueError (details t))"
  by (simp add: bad_delay_def task_code_def)

lemma task_code_good: "\<not> bad_delay py t \<Longrightarrow> \<exists>code. task_code py t = Inr code"
  by (auto simp: bad_delay_def task_code_def Let_def split: option.splits)

lemma task_code_unknown:
  "task_type t \<notin> set known_kinds \<Longrightarrow> task_code py t = Inr (unknown_code (task_type t))"
  by (simp add: known_kinds_def task_code_def)

lemma block_good:
  assumes "task_code py t = Inr code"
  shows "block py i t = announce i t @ code @ ''echo.\<newline>\<newline>''"
  using assms by (simp add: block_def)

lemma write_tasks_blocks:
  "write_tasks py i ts f =
     (case dropWhile (\<lambda>t. \<not> bad_delay py t) ts of
        [] \<Rightarrow> (f @ concat (blocks py i ts), None)
      | bad # rest \<Rightarrow>
          (f @ concat (blocks py i (takeWhile (\<lambda>t. \<not> bad_delay py t) ts)) @
             announce (i + length (takeWhile (\<lambda>t. \<not> bad_delay py t) ts)) bad,
           Some (ValueError (details bad))))"
proof (induction ts arbitrary: i f)
  case Nil
  show ?case by simp
next
  case (Cons t ts)
  show ?case
  proof (cases "bad_delay py t")
    case True
    then show ?thesis by (simp add: task_code_bad)
  next
    case False
    then obtain code where c: "task_code py t = Inr code"
      using task_code_good by blast
    have step: "write_tasks py i (t # ts) f = write_tasks py (i + 1) ts (f @ block py i t)"
      by (simp add: c block_good [OF c])
    have dw: "dropWhile (\<lambda>t. \<not> bad_delay py t) (t # ts) = dropWhile (\<lambda>t. \<not> bad_delay py t) ts"
      and tw: "takeWhile (\<lambda>t. \<not> bad_delay py t) (t # ts) = t # takeWhile (\<lambda>t. \<not> bad_delay py t) ts"
      using False by simp_all
    show ?thesis
    proof (cases "dropWhile (\<lambda>t. \<not> bad_delay py t) ts")
      case Nil
      show ?thesis
        unfolding step dw tw Cons.IH [of "i + 1" "f @ block py i t"] Nil by simp
    next
      case (Cons bad rest)
      show ?thesis
        unfolding step dw tw Cons.IH [of "i + 1" "f @ block py i t"] Cons by simp
    qed
  qed
qed

lemma blocks_nth: "k < length ts \<Longrightarrow> blocks py i ts ! k = block py (i + k) (ts ! k)"
proof (induction ts arbitrary: i k)
  case Nil
  then show ?case by simp
next
  case (Cons t ts)
  then show ?case by (cases k) auto
qed

lemma length_blocks: "length (blocks py i ts) = length ts"
  by (induction ts arbitrary: i) auto


lemma convert_to_bat_ok:
  assumes "writable fs (get_bat_path pf path)" and "\<forall>t \<in> set tasks. \<not> bad_delay py t"
  shows "convert_to_bat py pf bn tasks path fs =
           (Inr (get_bat_path pf path),
            fs\<lparr>files := (files fs)(get_bat_path pf path \<mapsto>
                     bat_header (bn path) @ concat (blocks py 1 tasks) @ bat_footer)\<rparr>)"
proof -
  have "dropWhile (\<lambda>t. \<not> bad_delay py t) tasks = []"
    using assms(2) by simp
  then have "write_tasks py 1 tasks (bat_header (bn path))
               = (bat_header (bn path) @ concat (blocks py 1 tasks), None)"
    by (simp only: write_tasks_blocks list.case)
  then show ?thesis
    using assms(1) by (simp add: convert_to_bat_def Let_def)
qed

lemma convert_to_bat_bad:
  assumes "writable fs (get_bat_path pf path)" and "\<exists>t \<in> set tasks. bad_delay py t"
  shows "\<exists>t \<in> set tasks. bad_delay py t \<and>
           fst (convert_to_bat py pf bn tasks path fs) =
             Inl (Exception ''Error creating BAT file: '' (ValueError (details t)))"
proof -
  from assms(2) obtain bad rest where dw: "dropWhile (\<lambda>t. \<not> bad_delay py t) tasks = bad # rest"
    by (cases "dropWhile (\<lambda>t. \<not> bad_delay py t) tasks") auto
  have "bad = hd (dropWhile (\<lambda>t. \<not> bad_delay py t) tasks)" using dw by simp
  then have b: "bad_delay py bad" using hd_dropWhile [of "\<lambda>t. \<not> bad_delay py t" tasks] dw by auto
  have m: "bad \<in> set tasks" using set_dropWhileD [of bad "\<lambda>t. \<not> bad_delay py t" tasks] dw by simp
  have "\<exists>f. write_tasks py 1 tasks (bat_header (bn path)) = (f, Some (ValueError (details bad)))"
    by (simp only: write_tasks_blocks dw list.case) blast
  then have "fst (convert_to_bat py pf bn tasks path fs) =
             Inl (Exception ''Error creating BAT file: '' (ValueError (details bad)))"
    using assms(1) by (auto simp: convert_to_bat_def Let_def)
  with b m show ?thesis by blast
qed

lemma announce_nonempty: "announce i t \<noteq> []"
  by (simp add: announce_def)

lemma block_starts: "str_startswith (block py i t) (announce i t)"
  by (simp add: block_def str_startswith_def)

lemma block_nonempty: "block py i t \<noteq> []"
  by (simp add: block_def announce_nonempty)

lemma block_unknown:
  assumes "task_type t \<notin> set known_kinds"
  shows "block py i t = announce i t @ ''echo Unknown task type: '' @ task_type t @ ''\<newline>echo.\<newline>\<newline>''"
  using task_code_unknown [OF assms] by (simp add: block_def unknown_code_def)

text \<open>
  Claim C2 (compiler totality).  Let the script's path be writable, on any interpreter.
  For every task sequence in which no \<open>delay\<close> task has a value that the interpreter's
  \<open>int\<close> rejects (for ASCII text: anything but optional C whitespace, an optional sign and
  decimal digits with single underscores between them, within the digit limit),
  \<open>convert_to_bat\<close>
  returns the script's path and writes the script: the banner, the block of every task in
  order, and the closing lines; the script is not empty.  For every sequence there is one
  block per task, each block is not empty and starts with the two lines that announce the
  task with its number and kind, and the block of a task whose kind is not among the
  seventeen known ones is exactly the announcement, the line
  \<open>echo Unknown task type: kind\<close> and the closing \<open>echo.\<close>.  When some \<open>delay\<close> task
  has a value that \<open>int\<close> rejects, \<open>convert_to_bat\<close> raises: the wrapped \<open>ValueError\<close> of
  such a task.
\<close>

theorem compile_total:
  assumes w: "writable fs (get_bat_path pf path)"
  shows "((\<forall>t \<in> set tasks. \<not> bad_delay py t) \<longrightarrow>
            convert_to_bat py pf bn tasks path fs =
              (Inr (get_bat_path pf path),
               fs\<lparr>files := (files fs)(get_bat_path pf path \<mapsto>
                        bat_header (bn path) @ concat (blocks py 1 tasks) @ bat_footer)\<rparr>) \<and>
            bat_header (bn path) @ concat (blocks py 1 tasks) @ bat_footer \<noteq> []) \<and>
         length (blocks py 1 tasks) = length tasks \<and>
         (\<forall>k < length tasks.
            blocks py 1 tasks ! k \<noteq> [] \<and>
            str_startswith (blocks py 1 tasks ! k) (announce (k + 1) (tasks ! k)) \<and>
            (task_type (tasks ! k) \<notin> set known_kinds \<longrightarrow>
               blocks py 1 tasks ! k =
                 announce (k + 1) (tasks ! k) @ ''echo Unknown task type: '' @
                 task_type (tasks ! k) @ ''\<newline>echo.\<newline>\<newline>'')) \<and>
         ((\<exists>t \<in> set tasks. bad_delay py t) \<longrightarrow>
            (\<exists>t \<in> set tasks. bad_delay py t \<and>
               fst (convert_to_bat py pf bn tasks path fs) =
                 Inl (Exception ''Error creating BAT file: '' (ValueError (details t)))))"
proof (intro conjI impI allI)
  assume "\<forall>t \<in> set tasks. \<not> bad_delay py t"
  then show "convert_to_bat py pf bn tasks path fs =
              (Inr (get_bat_path pf path),
               fs\<lparr>files := (files fs)(get_bat_path pf path \<mapsto>
                        bat_header (bn path) @ concat (blocks py 1 tasks) @ bat_footer)\<rparr>)"
    using w by (rule convert_to_bat_ok [rotated])
next
  show "bat_header (bn path) @ concat (blocks py 1 tasks) @ bat_footer \<noteq> []"
    by (simp add: bat_header_def)
next
  show "length (blocks py 1 tasks) = length tasks"
    by (rule length_blocks)
next
  fix k assume k: "k < length tasks"
  then have eq: "blocks py 1 tasks ! k = block py (k + 1) (tasks ! k)"
    by (simp add: blocks_nth)
  show "blocks py 1 tasks ! k \<noteq> []"
    unfolding eq by (rule block_nonempty)
  show "str_startswith (blocks py 1 tasks ! k) (announce (k + 1) (tasks ! k))"
    unfolding eq by (rule block_starts)
  assume "task_type (tasks ! k) \<notin> set known_kinds"
  then show "blocks py 1 tasks ! k =
                 announce (k + 1) (tasks ! k) @ ''echo Unknown task type: '' @
                 task_type (tasks ! k) @ ''\<newline>echo.\<newline>\<newline>''"
    unfolding eq by (rule block_unknown)
next
  assume "\<exists>t \<in> set tasks. bad_delay py t"
  with w show "\<exists>t \<in> set tasks. bad_delay py t \<and>
               fst (convert_to_bat py pf bn tasks path fs) =
                 Inl (Exception ''Error creating BAT file: '' (ValueError (details t)))"
    by (rule convert_to_bat_bad)
qed


lemma py_int_3: "py_int py ''3'' = Some 3"
  by (simp add: py_int_def is_ascii_def ascii_int_def c_isspace_def isdigit_def digits_value_def
      digit_val_def)

lemma py_int_abc: "py_int py ''abc'' = None"
  by (simp add: py_int_def is_ascii_def ascii_int_def c_isspace_def isdigit_def)

lemma bat_path_t: "get_bat_path Windows ''t.txt'' = ''t.bat''"
  by (simp add: get_bat_path_def splitext_def str_rfind_def skip_dots.simps)

theorem compile_total_witness:
  "writable empty_fs (get_bat_path Windows ''t.txt'') \<and>
   fst (convert_to_bat example_python Windows posix_basename
          [\<lparr>task_type = ''frobnicate'', details = ''x'', additional = []\<rparr>,
           \<lparr>task_type = ''delay'', details = ''3'', additional = []\<rparr>] ''t.txt'' empty_fs) = Inr ''t.bat'' \<and>
   blocks example_python 1 [\<lparr>task_type = ''frobnicate'', details = ''x'', additional = []\<rparr>,
             \<lparr>task_type = ''delay'', details = ''3'', additional = []\<rparr>] ! 0
     = ''REM Task 1: frobnicate\<newline>echo Executing Task 1: frobnicate\<newline>echo Unknown task type: frobnicate\<newline>echo.\<newline>\<newline>'' \<and>
   fst (convert_to_bat example_python Windows posix_basename
          [\<lparr>task_type = ''delay'', details = ''abc'', additional = []\<rparr>] ''t.txt'' empty_fs)
     = Inl (Exception ''Error creating BAT file: '' (ValueError ''abc'')) \<and>
   fst (convert_to_bat example_python Windows posix_basename
          [\<lparr>task_type = ''delay'', details = [CHR 0x1C, CHR ''5''], additional = []\<rparr>]
          ''t.txt'' empty_fs)
     = Inl (Exception ''Error creating BAT file: '' (ValueError [CHR 0x1C, CHR ''5'']))"
proof -
  let ?C = "[\<lparr>task_type = ''delay'', details = [CHR 0x1C, CHR ''5''], additional = []\<rparr>]"
  have sep: "\<exists>t \<in> set ?C. bad_delay example_python t"
    by (simp add: bad_delay_def py_int_def is_ascii_def ascii_int_def c_isspace_def isdigit_def)
  let ?A = "[\<lparr>task_type = ''frobnicate'', details = ''x'', additional = []\<rparr>,
             \<lparr>task_type = ''delay'', details = ''3'', additional = []\<rparr>]"
  let ?B = "[\<lparr>task_type = ''delay'', details = ''abc'', additional = []\<rparr>]"
  have w: "writable empty_fs (get_bat_path Windows ''t.txt'')"
    by (simp add: empty_fs_def)
  have good: "\<forall>t \<in> set ?A. \<not> bad_delay example_python t"
    by (simp add: bad_delay_def py_int_3)
  have bad: "\<exists>t \<in> set ?B. bad_delay example_python t"
    by (simp add: bad_delay_def py_int_abc)
  have unk: "(0::nat) < length ?A \<and> task_type (?A ! 0) \<notin> set known_kinds"
    by (simp add: known_kinds_def)
  from compile_total [OF w, of ?A example_python posix_basename] good unk
  have a: "fst (convert_to_bat example_python Windows posix_basename ?A ''t.txt'' empty_fs) = Inr (get_bat_path Windows ''t.txt'')"
    and b: "blocks example_python 1 ?A ! 0 = announce (0 + 1) (?A ! 0) @ ''echo Unknown task type: '' @
                 task_type (?A ! 0) @ ''\<newline>echo.\<newline>\<newline>''"
    by auto
  from compile_total [OF w, of ?B example_python posix_basename] bad
  have c: "fst (convert_to_bat example_python Windows posix_basename ?B ''t.txt'' empty_fs)
     = Inl (Exception ''Error creating BAT file: '' (ValueError ''abc''))"
    by auto
  from compile_total [OF w, of ?C example_python posix_basename] sep
  have d: "fst (convert_to_bat example_python Windows posix_basename ?C ''t.txt'' empty_fs)
     = Inl (Exception ''Error creating BAT file: '' (ValueError [CHR 0x1C, CHR ''5'']))"
    by auto
  show ?thesis
    using w a b c d by (simp add: bat_path_t announce_def str_nat.simps digit_char_def)
qed


subsection \<open>Occurrences and switches\<close>

lemma startswith_append: "str_startswith (x @ b) x"
  by (simp add: str_startswith_def)

lemma occurs_here: "occurs x (x @ b)"
proof (cases "x @ b")
  case Nil
  then show ?thesis by simp
next
  case (Cons c s)
  have "str_startswith (x @ b) x" by (rule startswith_append)
  then show ?thesis unfolding Cons by simp
qed

lemma occurs_later: "occurs x s \<Longrightarrow> occurs x (a @ s)"
  by (induction a) auto

lemma occurs_before_here:
  assumes "occurs y r"
  shows "occurs_before x y (x @ r)"
proof (cases "x @ r")
  case Nil
  with assms show ?thesis by (cases y) auto
next
  case (Cons c s)
  have "str_startswith (x @ r) x" by (rule startswith_append)
  moreover have "occurs y (drop (length x) (x @ r))" using assms by simp
  ultimately show ?thesis unfolding Cons by simp
qed

lemma occurs_before_later: "occurs_before x y s \<Longrightarrow> occurs_before x y (a @ s)"
  by (induction a) auto

lemma occurs_beforeI: "s = a @ x @ b @ y @ c \<Longrightarrow> occurs_before x y s"
  using occurs_before_later [OF occurs_before_here [OF occurs_later [OF occurs_here]]]
  by simp

lemma switches_none: "CHR ''/'' \<notin> set s \<Longrightarrow> switches s = []"
  by (induction s rule: switches.induct) auto

lemma switches_skip: "CHR ''/'' \<notin> set xs \<Longrightarrow> switches (xs @ ys) = switches ys"
proof (induction xs)
  case Nil
  show ?case by simp
next
  case (Cons x xs)
  then have x: "x \<noteq> CHR ''/''" and ih: "switches (xs @ ys) = switches ys"
    by auto
  show ?case
  proof (cases "xs @ ys")
    case Nil
    then show ?thesis by simp
  next
    case (Cons z zs)
    have "switches (x # z # zs) = switches (z # zs)"
      using x by simp
    then show ?thesis
      using ih unfolding Cons by (simp add: Cons)
  qed
qed

lemma safe_path_no_slash: "CHR ''/'' \<notin> set (str_replace CHR ''/'' BSL s)"
  by (auto simp: str_replace_def)

subsection \<open>The block of \<open>open_url\<close>\<close>

lemma write_url_code_lines: \<open>write_url_code url = unlines
     ([''echo Opening URL in default web browser...''] @
      (if has_protocol url then [] else [''echo No protocol specified, using https:// by default'']) @
      [''echo Using start command...'',
       ''start "" "'' @ launch_url url @ ''"'',
       ''if %ERRORLEVEL% NEQ 0 ('',
       ''    echo ERROR: Failed to open URL.'',
       ''    echo URL: '' @ launch_url url,
       '') else ('',
       ''    echo Successfully opened URL: '' @ launch_url url,
       '')'',
       [],
       '':url_end''])\<close>
  by (simp add: write_url_code_def unlines_def Let_def has_protocol_def launch_url_def)

lemma scenario_script:
  \<open>occurs_before (''start "" "https://example.com"\<newline>'') ''timeout /t 3 /nobreak >nul\<newline>''
     (pre @ concat (blocks py 1 [\<lparr>task_type = ''open_url'', details = ''example.com'', additional = []\<rparr>,
                            \<lparr>task_type = ''delay'', details = ''3'', additional = []\<rparr>]) @ post)\<close>
proof -
  let ?t1 = "\<lparr>task_type = ''open_url'', details = ''example.com'', additional = []\<rparr>"
  let ?t2 = "\<lparr>task_type = ''delay'', details = ''3'', additional = []\<rparr>"
  define U1 where "U1 = ''echo Opening URL in default web browser...\<newline>'' @
     ''echo No protocol specified, using https:// by default\<newline>echo Using start command...\<newline>''"
  define U2 where \<open>U2 = ''if %ERRORLEVEL% NEQ 0 (\<newline>    echo ERROR: Failed to open URL.\<newline>'' @
     ''    echo URL: https://example.com\<newline>) else (\<newline>'' @
     ''    echo Successfully opened URL: https://example.com\<newline>)\<newline>\<newline>:url_end\<newline>''\<close>
  have url: \<open>write_url_code ''example.com'' = U1 @ ''start "" "https://example.com"\<newline>'' @ U2\<close>
    by (simp add: write_url_code_def str_startswith_def U1_def U2_def)
  have delay: "delay_code 3 = ''echo Waiting for 3 seconds...\<newline>'' @ ''timeout /t 3 /nobreak >nul\<newline>''"
    by (simp add: delay_code_def str_int_def str_nat.simps digit_char_def)
  have c1: "task_code py ?t1 = Inr (write_url_code ''example.com'')"
    by (simp add: task_code_def)
  have c2: "task_code py ?t2 = Inr (delay_code 3)"
    by (simp add: task_code_def py_int_3)
  have \<open>pre @ concat (blocks py 1 [?t1, ?t2]) @ post
        = (pre @ announce 1 ?t1 @ U1) @ ''start "" "https://example.com"\<newline>'' @
          (U2 @ ''echo.\<newline>\<newline>'' @ announce 2 ?t2 @ ''echo Waiting for 3 seconds...\<newline>'') @
          ''timeout /t 3 /nobreak >nul\<newline>'' @ (''echo.\<newline>\<newline>'' @ post)\<close>
    unfolding blocks.simps block_def c1 c2 url delay by (simp add: numeral_2_eq_2)
  then show ?thesis
    by (rule occurs_beforeI)
qed

text \<open>
  Claim C6 (\<open>open_url\<close>).  The code of an \<open>open_url\<close> task is \<open>write_url_code\<close> of its
  primary value.  For every address, that text consists of the lines below: the
  \<open>start\<close> command launches \<open>launch_url\<close>, which is the address itself when it starts with
  \<open>http://\<close>, \<open>https://\<close>, \<open>ftp://\<close> or \<open>file://\<close>, and \<open>https://\<close> followed by the
  address otherwise; the line after it tests \<open>%ERRORLEVEL%\<close>, with the failure report in
  its first branch and the success report in its \<open>else\<close> branch.  For the two tasks
  \<open>open_url example.com\<close> and \<open>delay 3\<close>, whenever the script can be written, the script
  holds the \<open>start\<close> line for \<open>https://example.com\<close> and, after it, the \<open>timeout\<close> line for
  3 seconds.
\<close>

theorem open_url_block:
  \<open>(task_type t = ''open_url'' \<longrightarrow> task_code py t = Inr (write_url_code (details t))) \<and>
   write_url_code url = unlines
     ([''echo Opening URL in default web browser...''] @
      (if has_protocol url then [] else [''echo No protocol specified, using https:// by default'']) @
      [''echo Using start command...'',
       ''start "" "'' @ launch_url url @ ''"'',
       ''if %ERRORLEVEL% NEQ 0 ('',
       ''    echo ERROR: Failed to open URL.'',
       ''    echo URL: '' @ launch_url url,
       '') else ('',
       ''    echo Successfully opened URL: '' @ launch_url url,
       '')'',
       [],
       '':url_end'']) \<and>
   (writable fs (get_bat_path pf path) \<longrightarrow>
      (\<exists>s. convert_to_bat py pf bn
              [\<lparr>task_type = ''open_url'', details = ''example.com'', additional = []\<rparr>,
               \<lparr>task_type = ''delay'', details = ''3'', additional = []\<rparr>] path fs
            = (Inr (get_bat_path pf path), fs\<lparr>files := (files fs)(get_bat_path pf path \<mapsto> s)\<rparr>) \<and>
           occurs_before (''start "" "https://example.com"\<newline>'')
             ''timeout /t 3 /nobreak >nul\<newline>'' s))\<close>
proof (intro conjI impI)
  assume "task_type t = ''open_url''"
  then show "task_code py t = Inr (write_url_code (details t))"
    by (simp add: task_code_def)
next
  show \<open>write_url_code url = unlines
     ([''echo Opening URL in default web browser...''] @
      (if has_protocol url then [] else [''echo No protocol specified, using https:// by default'']) @
      [''echo Using start command...'',
       ''start "" "'' @ launch_url url @ ''"'',
       ''if %ERRORLEVEL% NEQ 0 ('',
       ''    echo ERROR: Failed to open URL.'',
       ''    echo URL: '' @ launch_url url,
       '') else ('',
       ''    echo Successfully opened URL: '' @ launch_url url,
       '')'',
       [],
       '':url_end''])\<close>
    by (rule write_url_code_lines)
next
  let ?ts = "[\<lparr>task_type = ''open_url'', details = ''example.com'', additional = []\<rparr>,
               \<lparr>task_type = ''delay'', details = ''3'', additional = []\<rparr>]"
  assume w: "writable fs (get_bat_path pf path)"
  have good: "\<forall>t \<in> set ?ts. \<not> bad_delay py t"
    by (simp add: bad_delay_def py_int_3)
  show \<open>\<exists>s. convert_to_bat py pf bn ?ts path fs
            = (Inr (get_bat_path pf path), fs\<lparr>files := (files fs)(get_bat_path pf path \<mapsto> s)\<rparr>) \<and>
           occurs_before (''start "" "https://example.com"\<newline>'')
             ''timeout /t 3 /nobreak >nul\<newline>'' s\<close>
    using convert_to_bat_ok [OF w good, of bn] scenario_script by blast
qed


theorem open_url_block_witness:
  \<open>task_code example_python \<lparr>task_type = ''open_url'', details = ''ftp://h/x'', additional = []\<rparr>
     = Inr (write_url_code ''ftp://h/x'') \<and>
   occurs (''start "" "ftp://h/x"\<newline>if %ERRORLEVEL% NEQ 0 (\<newline>'') (write_url_code ''ftp://h/x'') \<and>
   occurs (''start "" "https://example.com"\<newline>if %ERRORLEVEL% NEQ 0 (\<newline>'')
     (write_url_code ''example.com'') \<and>
   writable empty_fs (get_bat_path Windows ''t.txt'') \<and>
   (\<exists>s. convert_to_bat example_python Windows posix_basename
              [\<lparr>task_type = ''open_url'', details = ''example.com'', additional = []\<rparr>,
               \<lparr>task_type = ''delay'', details = ''3'', additional = []\<rparr>] ''t.txt'' empty_fs
            = (Inr ''t.bat'', empty_fs\<lparr>files := (files empty_fs)(''t.bat'' \<mapsto> s)\<rparr>) \<and>
           occurs_before (''start "" "https://example.com"\<newline>'')
             ''timeout /t 3 /nobreak >nul\<newline>'' s)\<close>
proof -
  let ?t = "\<lparr>task_type = ''open_url'', details = ''ftp://h/x'', additional = []\<rparr>"
  have k: "task_type ?t = ''open_url''" by simp
  have w: "writable empty_fs (get_bat_path Windows ''t.txt'')" by (simp add: empty_fs_def)
  note th = open_url_block [of ?t example_python _ empty_fs Windows "''t.txt''" posix_basename]
  from th k have a: "task_code example_python ?t = Inr (write_url_code (details ?t))"
    by blast
  have p1: "has_protocol ''ftp://h/x''" and p2: "\<not> has_protocol ''example.com''"
    by (simp_all add: has_protocol_def str_startswith_def)
  from open_url_block [of ?t example_python "''ftp://h/x''" empty_fs Windows "''t.txt''" posix_basename]
  have b: \<open>write_url_code ''ftp://h/x'' =
     (''echo Opening URL in default web browser...\<newline>echo Using start command...\<newline>'') @
     (''start "" "ftp://h/x"\<newline>if %ERRORLEVEL% NEQ 0 (\<newline>'') @
     (''    echo ERROR: Failed to open URL.\<newline>    echo URL: ftp://h/x\<newline>) else (\<newline>'' @
      ''    echo Successfully opened URL: ftp://h/x\<newline>)\<newline>\<newline>:url_end\<newline>'')\<close>
    by (simp add: p1 launch_url_def unlines_def)
  from open_url_block [of ?t example_python "''example.com''" empty_fs Windows "''t.txt''" posix_basename]
  have c: \<open>write_url_code ''example.com'' =
     (''echo Opening URL in default web browser...\<newline>'' @
      ''echo No protocol specified, using https:// by default\<newline>echo Using start command...\<newline>'') @
     (''start "" "https://example.com"\<newline>if %ERRORLEVEL% NEQ 0 (\<newline>'') @
     (''    echo ERROR: Failed to open URL.\<newline>    echo URL: https://example.com\<newline>) else (\<newline>'' @
      ''    echo Successfully opened URL: https://example.com\<newline>)\<newline>\<newline>:url_end\<newline>'')\<close>
    by (simp add: p2 launch_url_def unlines_def)
  have ob: \<open>occurs (''start "" "ftp://h/x"\<newline>if %ERRORLEVEL% NEQ 0 (\<newline>'') (write_url_code ''ftp://h/x'')\<close>
    unfolding b by (rule occurs_later [OF occurs_here])
  have oc: \<open>occurs (''start "" "https://example.com"\<newline>if %ERRORLEVEL% NEQ 0 (\<newline>'')
     (write_url_code ''example.com'')\<close>
    unfolding c by (rule occurs_later [OF occurs_here])
  from th w have d: \<open>\<exists>s. convert_to_bat example_python Windows posix_basename
              [\<lparr>task_type = ''open_url'', details = ''example.com'', additional = []\<rparr>,
               \<lparr>task_type = ''delay'', details = ''3'', additional = []\<rparr>] ''t.txt'' empty_fs
            = (Inr (get_bat_path Windows ''t.txt''),
               empty_fs\<lparr>files := (files empty_fs)(get_bat_path Windows ''t.txt'' \<mapsto> s)\<rparr>) \<and>
           occurs_before (''start "" "https://example.com"\<newline>'')
             ''timeout /t 3 /nobreak >nul\<newline>'' s\<close>
    by blast
  show ?thesis
    using a ob oc w d unfolding bat_path_t by simp
qed

subsection \<open>The block of \<open>delete_folder_if_empty\<close>\<close>

lemma delete_folder_if_empty_lines: \<open>delete_folder_if_empty_code dets =
   (let p = str_replace CHR ''/'' BSL dets in unlines
     [''echo Attempting to delete folder (only if empty): '' @ p,
      ''if exist "'' @ p @ ''" ('',
      ''  rmdir /q "'' @ p @ ''"'',
      ''  if exist "'' @ p @ ''" ('',
      ''    echo WARNING: Could not delete folder '' @ p @ '' '' @ [CHR 0xE2, CHR 0x80, CHR 0x94] @
         '' it may not be empty or is locked'',
      ''  ) else ('',
      ''    echo Successfully deleted empty folder: '' @ p,
      ''  )'',
      '') else ('',
      ''  echo WARNING: Folder not found: '' @ p,
      '')''])\<close>
  by (simp add: delete_folder_if_empty_code_def unlines_def Let_def)

lemma delete_folder_if_empty_switches: "switches (delete_folder_if_empty_code dets) = ''q''"
proof -
  define p where "p = str_replace CHR ''/'' BSL dets"
  define A where "A = ''echo Attempting to delete folder (only if empty): '' @ p @
     ''\<newline>if exist '' @ [CHR 0x22] @ p @ [CHR 0x22] @ '' (\<newline>  rmdir ''"
  define B where "B = '' '' @ [CHR 0x22] @ p @ [CHR 0x22] @ ''\<newline>  if exist '' @ [CHR 0x22] @ p @ [CHR 0x22] @
      '' (\<newline>    echo WARNING: Could not delete folder '' @ p @ '' '' @
          [CHR 0xE2, CHR 0x80, CHR 0x94] @ '' it may not be empty or is locked\<newline>  ) else (\<newline>'' @
      ''    echo Successfully deleted empty folder: '' @ p @ ''\<newline>  )\<newline>) else (\<newline>'' @
      ''  echo WARNING: Folder not found: '' @ p @ ''\<newline>)\<newline>''"
  have np: "CHR ''/'' \<notin> set p" by (simp add: p_def safe_path_no_slash)
  have code: "delete_folder_if_empty_code dets = A @ CHR ''/'' # CHR ''q'' # B"
    unfolding delete_folder_if_empty_code_def Let_def p_def [symmetric] A_def B_def by simp
  have nA: "CHR ''/'' \<notin> set A" using np by (simp add: A_def)
  have nB: "CHR ''/'' \<notin> set (CHR ''q'' # B)" using np by (simp add: B_def)
  have "switches (A @ CHR ''/'' # CHR ''q'' # B) = switches (CHR ''/'' # CHR ''q'' # B)"
    using nA by (rule switches_skip)
  also have "\<dots> = CHR ''q'' # switches (CHR ''q'' # B)" by simp
  also have "\<dots> = ''q''" using switches_none [OF nB] by simp
  finally show ?thesis unfolding code .
qed

text \<open>
  Claim C7 (\<open>delete_folder_if_empty\<close>).  The code of such a task is
  \<open>delete_folder_if_empty_code\<close> of its primary value.  For every value, the only command
  switch in that text is \<open>/q\<close>: \<open>rmdir\<close> is given no \<open>/s\<close>, so it does not remove a
  directory with contents.  The text consists of the lines below: the removal stands
  inside \<open>if exist\<close>, whose \<open>else\<close> branch reports the folder as not found without a
  removal; right after the removal a second \<open>if exist\<close> on the same path reports a warning
  in its first branch (the directory is still there) and the success in its \<open>else\<close>
  branch.
\<close>

theorem delete_folder_if_empty_block:
  \<open>(task_type t = ''delete_folder_if_empty'' \<longrightarrow>
      task_code py t = Inr (delete_folder_if_empty_code (details t))) \<and>
   switches (delete_folder_if_empty_code dets) = ''q'' \<and>
   delete_folder_if_empty_code dets =
   (let p = str_replace CHR ''/'' BSL dets in unlines
     [''echo Attempting to delete folder (only if empty): '' @ p,
      ''if exist "'' @ p @ ''" ('',
      ''  rmdir /q "'' @ p @ ''"'',
      ''  if exist "'' @ p @ ''" ('',
      ''    echo WARNING: Could not delete folder '' @ p @ '' '' @ [CHR 0xE2, CHR 0x80, CHR 0x94] @
         '' it may not be empty or is locked'',
      ''  ) else ('',
      ''    echo Successfully deleted empty folder: '' @ p,
      ''  )'',
      '') else ('',
      ''  echo WARNING: Folder not found: '' @ p,
      '')''])\<close>
proof (intro conjI impI)
  assume "task_type t = ''delete_folder_if_empty''"
  then show "task_code py t = Inr (delete_folder_if_empty_code (details t))"
    by (simp add: task_code_def)
next
  show "switches (delete_folder_if_empty_code dets) = ''q''"
    by (rule delete_folder_if_empty_switches)
next
  show \<open>delete_folder_if_empty_code dets =
   (let p = str_replace CHR ''/'' BSL dets in unlines
     [''echo Attempting to delete folder (only if empty): '' @ p,
      ''if exist "'' @ p @ ''" ('',
      ''  rmdir /q "'' @ p @ ''"'',
      ''  if exist "'' @ p @ ''" ('',
      ''    echo WARNING: Could not delete folder '' @ p @ '' '' @ [CHR 0xE2, CHR 0x80, CHR 0x94] @
         '' it may not be empty or is locked'',
      ''  ) else ('',
      ''    echo Successfully deleted empty folder: '' @ p,
      ''  )'',
      '') else ('',
      ''  echo WARNING: Folder not found: '' @ p,
      '')''])\<close>
    by (rule delete_folder_if_empty_lines)
qed

theorem delete_folder_if_empty_block_witness:
  \<open>task_code example_python \<lparr>task_type = ''delete_folder_if_empty'', details = ''C:/t/x'', additional = []\<rparr>
     = Inr (delete_folder_if_empty_code ''C:/t/x'') \<and>
   switches (delete_folder_if_empty_code ''C:/t/x'') = ''q'' \<and>
   take 4 (str_split NL (delete_folder_if_empty_code ''C:/t/x''))
     = [''echo Attempting to delete folder (only if empty): C:'' @ [BSL] @ ''t'' @ [BSL] @ ''x'',
        ''if exist "C:'' @ [BSL] @ ''t'' @ [BSL] @ ''x" ('',
        ''  rmdir /q "C:'' @ [BSL] @ ''t'' @ [BSL] @ ''x"'',
        ''  if exist "C:'' @ [BSL] @ ''t'' @ [BSL] @ ''x" ('']\<close>
proof -
  let ?t = "\<lparr>task_type = ''delete_folder_if_empty'', details = ''C:/t/x'', additional = []\<rparr>"
  have k: "task_type ?t = ''delete_folder_if_empty''" by simp
  from delete_folder_if_empty_block [of ?t example_python "''C:/t/x''"] k
  have a: "task_code example_python ?t = Inr (delete_folder_if_empty_code (details ?t))"
    and b: "switches (delete_folder_if_empty_code ''C:/t/x'') = ''q''"
    and c: \<open>delete_folder_if_empty_code ''C:/t/x'' =
   (let p = str_replace CHR ''/'' BSL ''C:/t/x'' in unlines
     [''echo Attempting to delete folder (only if empty): '' @ p,
      ''if exist "'' @ p @ ''" ('',
      ''  rmdir /q "'' @ p @ ''"'',
      ''  if exist "'' @ p @ ''" ('',
      ''    echo WARNING: Could not delete folder '' @ p @ '' '' @ [CHR 0xE2, CHR 0x80, CHR 0x94] @
         '' it may not be empty or is locked'',
      ''  ) else ('',
      ''    echo Successfully deleted empty folder: '' @ p,
      ''  )'',
      '') else ('',
      ''  echo WARNING: Folder not found: '' @ p,
      '')''])\<close>
    by blast+
  have d: \<open>take 4 (str_split NL (delete_folder_if_empty_code ''C:/t/x''))
     = [''echo Attempting to delete folder (only if empty): C:'' @ [BSL] @ ''t'' @ [BSL] @ ''x'',
        ''if exist "C:'' @ [BSL] @ ''t'' @ [BSL] @ ''x" ('',
        ''  rmdir /q "C:'' @ [BSL] @ ''t'' @ [BSL] @ ''x"'',
        ''  if exist "C:'' @ [BSL] @ ''t'' @ [BSL] @ ''x" ('']\<close>
    unfolding c by (simp add: str_replace_def unlines_def)
  from a b d show ?thesis
    by simp
qed

subsection \<open>Paths of the two files\<close>

lemma skip_dots_iff:
  "skip_dots p i d \<longleftrightarrow> (\<exists>j. i \<le> j \<and> j < d \<and> take 1 (drop j p) \<noteq> ''.'')"
proof (induction p i d rule: skip_dots.induct)
  case (1 p i d)
  show ?case
  proof (cases "i < d")
    case False
    then show ?thesis by (subst skip_dots.simps) auto
  next
    case lt: True
    show ?thesis
    proof (cases "take 1 (drop i p) \<noteq> ''.''")
      case True
      with lt show ?thesis by (subst skip_dots.simps) auto
    next
      case False
      then have "skip_dots p i d = skip_dots p (i + 1) d"
        using lt by (subst skip_dots.simps) simp
      also have "\<dots> \<longleftrightarrow> (\<exists>j. i + 1 \<le> j \<and> j < d \<and> take 1 (drop j p) \<noteq> ''.'')"
        using 1 lt False by simp
      also have "\<dots> \<longleftrightarrow> (\<exists>j. i \<le> j \<and> j < d \<and> take 1 (drop j p) \<noteq> ''.'')"
      proof
        assume "\<exists>j. i + 1 \<le> j \<and> j < d \<and> take 1 (drop j p) \<noteq> ''.''"
        then show "\<exists>j. i \<le> j \<and> j < d \<and> take 1 (drop j p) \<noteq> ''.''"
          by (meson add_leD1)
      next
        assume "\<exists>j. i \<le> j \<and> j < d \<and> take 1 (drop j p) \<noteq> ''.''"
        then obtain j where j: "i \<le> j" "j < d" "take 1 (drop j p) \<noteq> ''.''" by blast
        with False have "j \<noteq> i" by auto
        with j show "\<exists>j. i + 1 \<le> j \<and> j < d \<and> take 1 (drop j p) \<noteq> ''.''"
          by (intro exI [of _ j]) simp
      qed
      finally show ?thesis .
    qed
  qed
qed

lemma takeWhile_first_lt: "x \<in> set xs \<Longrightarrow> length (takeWhile (\<lambda>y. y \<noteq> x) xs) < length xs"
  by (induction xs) auto

lemma takeWhile_all_append:
  "\<forall>x \<in> set xs. P x \<Longrightarrow> takeWhile P (xs @ ys) = xs @ takeWhile P ys"
  by (induction xs) auto

lemma rfind_bounds: "- 1 \<le> str_rfind s c \<and> str_rfind s c < int (length s)"
proof (cases "c \<in> set s")
  case False
  then show ?thesis by (simp add: str_rfind_def)
next
  case True
  have "length (takeWhile (\<lambda>x. x \<noteq> c) (rev s)) \<le> length s"
    using length_takeWhile_le [of "\<lambda>x. x \<noteq> c" "rev s"] by simp
  moreover have "length (takeWhile (\<lambda>x. x \<noteq> c) (rev s)) < length (rev s)"
    using True takeWhile_first_lt [of c "rev s"] by simp
  ultimately show ?thesis using True by (simp add: str_rfind_def)
qed

lemma rfind_append_other:
  assumes "c \<notin> set e"
  shows "str_rfind (s @ e) c = str_rfind s c"
proof (cases "c \<in> set s")
  case False
  with assms show ?thesis by (simp add: str_rfind_def)
next
  case True
  have "takeWhile (\<lambda>x. x \<noteq> c) (rev e @ rev s) = rev e @ takeWhile (\<lambda>x. x \<noteq> c) (rev s)"
    using assms by (intro takeWhile_all_append) auto
  then show ?thesis using True by (simp add: str_rfind_def)
qed

lemma rfind_dot:
  assumes "CHR ''.'' \<notin> set e"
  shows "str_rfind (s @ CHR ''.'' # e) CHR ''.'' = int (length s)"
proof -
  have "takeWhile (\<lambda>x. x \<noteq> CHR ''.'') (rev e @ CHR ''.'' # rev s)
          = rev e @ takeWhile (\<lambda>x. x \<noteq> CHR ''.'') (CHR ''.'' # rev s)"
    using assms by (intro takeWhile_all_append) auto
  then show ?thesis by (simp add: str_rfind_def)
qed


lemma splitext_sep_index:
  "splitext pf p =
     (if str_rfind p CHR ''.'' > sep_index pf p \<and>
         skip_dots p (nat (sep_index pf p + 1)) (nat (str_rfind p CHR ''.''))
      then (take (nat (str_rfind p CHR ''.'')) p, drop (nat (str_rfind p CHR ''.'')) p)
      else (p, []))"
  by (simp add: splitext_def sep_index_def Let_def)

lemma sep_index_bounds: "- 1 \<le> sep_index pf s \<and> sep_index pf s < int (length s)"
  using rfind_bounds [of s "CHR ''/''"] rfind_bounds [of s BSL]
  by (cases pf) (auto simp: sep_index_def)

lemma sep_index_append:
  assumes "CHR ''/'' \<notin> set e" and "BSL \<notin> set e"
  shows "sep_index pf (s @ e) = sep_index pf s"
  using assms by (cases pf) (simp_all add: sep_index_def rfind_append_other)

lemma skip_dots_append:
  assumes "d \<le> length s"
  shows "skip_dots (s @ e) i d = skip_dots s i d"
  using assms by (auto simp: skip_dots_iff)

lemma splitext_ext:
  assumes "CHR ''.'' \<notin> set e" and "CHR ''/'' \<notin> set e" and "BSL \<notin> set e"
  shows "splitext pf (s @ CHR ''.'' # e) =
           (if skip_dots s (nat (sep_index pf s + 1)) (length s) then (s, CHR ''.'' # e)
            else (s @ CHR ''.'' # e, []))"
proof -
  have di: "str_rfind (s @ CHR ''.'' # e) CHR ''.'' = int (length s)"
    using assms(1) by (rule rfind_dot)
  have si: "sep_index pf (s @ CHR ''.'' # e) = sep_index pf s"
    using assms(2,3) by (intro sep_index_append) auto
  have lt: "sep_index pf s < int (length s)"
    using sep_index_bounds [of pf s] by simp
  have sk: "skip_dots (s @ CHR ''.'' # e) (nat (sep_index pf s + 1)) (length s)
              = skip_dots s (nat (sep_index pf s + 1)) (length s)"
    by (rule skip_dots_append) simp
  show ?thesis
    unfolding splitext_sep_index di si using lt by (simp add: sk)
qed

lemma lower_char_range:
  "lower_char x = x \<or> lower_char x \<in> set ''abcdefghijklmnopqrstuvwxyz''"
proof (cases "map_of (zip ''ABCDEFGHIJKLMNOPQRSTUVWXYZ'' ''abcdefghijklmnopqrstuvwxyz'') x")
  case None
  show ?thesis unfolding lower_char_def None by simp
next
  case (Some y)
  then have "(x, y) \<in> set (zip ''ABCDEFGHIJKLMNOPQRSTUVWXYZ'' ''abcdefghijklmnopqrstuvwxyz'')"
    by (rule map_of_SomeD)
  then have "y \<in> set ''abcdefghijklmnopqrstuvwxyz''"
    by (rule set_zip_rightD)
  then show ?thesis unfolding lower_char_def Some by simp
qed

lemma lower_char_dot:
  assumes "lower_char x = CHR ''.''"
  shows "x = CHR ''.''"
proof -
  have "CHR ''.'' \<notin> set ''abcdefghijklmnopqrstuvwxyz''" by simp
  with lower_char_range [of x] assms show ?thesis by metis
qed

lemma lower_char_fixed:
  "lower_char CHR ''.'' = CHR ''.''" "lower_char CHR ''/'' = CHR ''/''" "lower_char BSL = BSL"
  by (simp_all add: lower_char_def)

lemma lower_char_letter:
  assumes "lower_char x = CHR ''t'' \<or> lower_char x = CHR ''x''"
  shows "x \<noteq> CHR ''.'' \<and> x \<noteq> CHR ''/'' \<and> x \<noteq> BSL"
proof (intro conjI notI)
  assume "x = CHR ''.''"
  with assms show False by (simp only: lower_char_fixed) simp
next
  assume "x = CHR ''/''"
  with assms show False by (simp only: lower_char_fixed) simp
next
  assume "x = BSL"
  with assms show False by (simp only: lower_char_fixed) simp
qed

lemma txt_suffix:
  assumes "ends_txt p"
  obtains stem e where "p = stem @ CHR ''.'' # e" and "length e = 3"
    and "CHR ''.'' \<notin> set e" and "CHR ''/'' \<notin> set e" and "BSL \<notin> set e"
proof -
  define n where "n = length p - length ''.txt''"
  have low: "map lower_char (drop n p) = ''.txt''"
    using assms unfolding ends_txt_def str_endswith_def n_def by (simp only: length_map drop_map)
  have p: "p = take n p @ drop n p" by simp
  from low obtain d a b c where r: "drop n p = [d, a, b, c]"
    and l: "lower_char d = CHR ''.''" "lower_char a = CHR ''t''"
      "lower_char b = CHR ''x''" "lower_char c = CHR ''t''"
    by (auto simp: map_eq_Cons_conv)
  have d: "d = CHR ''.''" using l(1) by (rule lower_char_dot)
  have "CHR ''.'' \<notin> set [a, b, c] \<and> CHR ''/'' \<notin> set [a, b, c] \<and> BSL \<notin> set [a, b, c]"
    using lower_char_letter [of a] lower_char_letter [of b] lower_char_letter [of c] l by auto
  then show ?thesis
    using that [of "take n p" "[a, b, c]"] p r d by simp
qed


lemma bat_not_txt: "\<not> ends_txt (x @ ''.bat'')"
  by (simp add: ends_txt_def str_endswith_def lower_char_def)

lemma txt_ends_txt: "ends_txt (x @ ''.txt'')"
  by (simp add: ends_txt_def str_endswith_def lower_char_def)

lemma lower_txt_test:
  assumes "\<forall>q. \<not> is_ascii q \<longrightarrow> str_endswith (lower_nonascii py q) ''.txt'' = ends_txt q"
  shows "str_endswith (str_lower py q) ''.txt'' = ends_txt q"
  using assms by (simp add: str_lower_def ends_txt_def)

lemma get_bat_path_ends: "str_endswith (get_bat_path pf p) ''.bat''"
  by (simp add: get_bat_path_def str_endswith_def split: prod.splits)

lemma get_bat_path_differs:
  assumes "ends_txt p"
  shows "get_bat_path pf p \<noteq> p"
proof
  assume "get_bat_path pf p = p"
  then have "p = fst (splitext pf p) @ ''.bat''"
    by (simp add: get_bat_path_def split: prod.splits)
  then have "\<not> ends_txt p"
    using bat_not_txt [of "fst (splitext pf p)"] by simp
  with assms show False by simp
qed

lemma splitext_bat_path:
  assumes "ends_txt p"
  shows "splitext pf (get_bat_path pf p) = (fst (splitext pf p), ''.bat'')"
proof -
  from assms obtain stem e where p: "p = stem @ CHR ''.'' # e" and len: "length e = 3"
    and e: "CHR ''.'' \<notin> set e" "CHR ''/'' \<notin> set e" "BSL \<notin> set e"
    by (rule txt_suffix)
  have bat: "CHR ''.'' \<notin> set ''bat''" "CHR ''/'' \<notin> set ''bat''" "BSL \<notin> set ''bat''"
    by simp_all
  show ?thesis
  proof (cases "skip_dots stem (nat (sep_index pf stem + 1)) (length stem)")
    case True
    then have "splitext pf p = (stem, CHR ''.'' # e)"
      unfolding p by (simp add: splitext_ext [OF e])
    moreover have "splitext pf (stem @ CHR ''.'' # ''bat'') = (stem, CHR ''.'' # ''bat'')"
      using True by (simp add: splitext_ext [OF bat])
    ultimately show ?thesis
      by (simp add: get_bat_path_def)
  next
    case False
    then have sp: "splitext pf p = (p, [])"
      unfolding p by (simp add: splitext_ext [OF e])
    have si: "sep_index pf p = sep_index pf stem"
      unfolding p using e by (intro sep_index_append) auto
    obtain a r where ar: "e = a # r" using len by (cases e) auto
    have "nat (sep_index pf p + 1) \<le> length stem + 1"
      using sep_index_bounds [of pf stem] si by linarith
    moreover have "length stem + 1 < length p"
      using len by (simp add: p)
    moreover have "take 1 (drop (length stem + 1) p) \<noteq> ''.''"
      using e(1) by (auto simp: p ar)
    ultimately have "skip_dots p (nat (sep_index pf p + 1)) (length p)"
      unfolding skip_dots_iff by blast
    then have "splitext pf (p @ CHR ''.'' # ''bat'') = (p, CHR ''.'' # ''bat'')"
      by (simp add: splitext_ext [OF bat])
    with sp show ?thesis
      by (simp add: get_bat_path_def)
  qed
qed


lemma txt_path_ends:
  assumes "\<forall>q. \<not> is_ascii q \<longrightarrow> str_endswith (lower_nonascii py q) ''.txt'' = ends_txt q"
  shows "ends_txt (txt_path py file_path)"
  unfolding txt_path_def lower_txt_test [OF assms] by (simp add: txt_ends_txt)

lemma save_tasks_unfold:
  assumes "writable fs (txt_path py file_path)"
  shows "save_tasks py pf bn now tasks file_path fs =
     (case convert_to_bat py pf bn tasks (txt_path py file_path)
             (fs\<lparr>files := (files fs)(txt_path py file_path \<mapsto> task_list_text now tasks)\<rparr>) of
        (Inl e, fs') \<Rightarrow> (Inl (Exception ''Error saving tasks to file: '' e), fs')
      | (Inr bat, fs') \<Rightarrow> (Inr (txt_path py file_path), fs'))"
proof -
  have tp: "(if \<not> str_endswith (str_lower py file_path) ''.txt'' then file_path @ ''.txt''
             else file_path) = txt_path py file_path"
    by (simp add: txt_path_def)
  show ?thesis
    unfolding save_tasks_def tp Let_def using assms by simp
qed

subsection \<open>Saving writes both files\<close>

lemma convert_to_bat_frame:
  assumes "q \<noteq> get_bat_path pf path"
  shows "files (snd (convert_to_bat py pf bn tasks path fs)) q = files fs q"
  using assms by (simp add: convert_to_bat_def Let_def split: prod.splits option.splits)

lemma convert_to_bat_unwritable:
  assumes "\<not> writable fs (get_bat_path pf path)"
  shows "convert_to_bat py pf bn tasks path fs =
           (Inl (Exception ''Error creating BAT file: '' (OSError (get_bat_path pf path))), fs)"
  using assms by (simp add: convert_to_bat_def)

lemma save_tasks_parts:
  assumes "writable fs (txt_path py file_path)"
  shows "fst (save_tasks py pf bn now tasks file_path fs) =
           (case fst (convert_to_bat py pf bn tasks (txt_path py file_path)
                       (fs\<lparr>files := (files fs)(txt_path py file_path \<mapsto> task_list_text now tasks)\<rparr>)) of
              Inl e \<Rightarrow> Inl (Exception ''Error saving tasks to file: '' e)
            | Inr bat \<Rightarrow> Inr (txt_path py file_path))"
    and "snd (save_tasks py pf bn now tasks file_path fs) =
           snd (convert_to_bat py pf bn tasks (txt_path py file_path)
                       (fs\<lparr>files := (files fs)(txt_path py file_path \<mapsto> task_list_text now tasks)\<rparr>))"
  unfolding save_tasks_unfold [OF assms] by (simp_all split: prod.splits sum.splits)

text \<open>
  Claim C10 (saving compiles too).  Let the task-list path, which is the given path with
  \<open>.txt\<close> appended unless its lower-case form already ends with \<open>.txt\<close>, be writable.
  \<open>lower\<close> changes a text character by character, only \<open>T\<close> and \<open>t\<close> give \<open>t\<close>, only
  \<open>X\<close> and \<open>x\<close> give \<open>x\<close>, and only the full stop gives a full stop; so on every path the
  test \<open>lower().endswith('.txt')\<close> holds exactly when the path ends with \<open>.txt\<close> in some
  letter case.  The model has this for ASCII paths; for the others it is the assumption
  on the interpreter.
  Then every call of \<open>save_tasks\<close> leaves the task-list text in the file at that path;
  the script's path differs from it, ends with \<open>.bat\<close>, and \<open>splitext\<close> gives it the base
  of the task-list path and the extension \<open>.bat\<close>.  When the script's path is writable
  and \<open>int\<close> rejects no \<open>delay\<close> value, the call returns the task-list path and the script
  file holds the compiled script of the same tasks.  When \<open>int\<close> rejects a \<open>delay\<close> value,
  the call raises the compiler's exception, wrapped once more; and when the script's path
  cannot be written, it raises that \<open>OSError\<close>, wrapped twice.  In both cases the task-list
  file has been written all the same.
\<close>

theorem save_also_compiles:
  assumes w: "writable fs (txt_path py file_path)"
    and low: "\<forall>q. \<not> is_ascii q \<longrightarrow> str_endswith (lower_nonascii py q) ''.txt'' = ends_txt q"
  shows "let p = txt_path py file_path; b = get_bat_path pf p;
             r = save_tasks py pf bn now tasks file_path fs in
     (p = file_path \<or> p = file_path @ ''.txt'') \<and> str_endswith (str_lower py p) ''.txt'' \<and>
     ends_txt p \<and>
     b \<noteq> p \<and> str_endswith b ''.bat'' \<and> splitext pf b = (fst (splitext pf p), ''.bat'') \<and>
     files (snd r) p = Some (task_list_text now tasks) \<and>
     (writable fs b \<and> (\<forall>t \<in> set tasks. \<not> bad_delay py t) \<longrightarrow>
        fst r = Inr p \<and>
        files (snd r) b = Some (bat_header (bn p) @ concat (blocks py 1 tasks) @ bat_footer)) \<and>
     (writable fs b \<and> (\<exists>t \<in> set tasks. bad_delay py t) \<longrightarrow>
        (\<exists>t \<in> set tasks. bad_delay py t \<and>
           fst r = Inl (Exception ''Error saving tasks to file: ''
                         (Exception ''Error creating BAT file: '' (ValueError (details t)))))) \<and>
     (\<not> writable fs b \<longrightarrow>
        fst r = Inl (Exception ''Error saving tasks to file: ''
                      (Exception ''Error creating BAT file: '' (OSError b))))"
proof -
  define p where "p = txt_path py file_path"
  define b where "b = get_bat_path pf p"
  define fs1 where "fs1 = fs\<lparr>files := (files fs)(p \<mapsto> task_list_text now tasks)\<rparr>"
  define r where "r = save_tasks py pf bn now tasks file_path fs"
  have ends: "ends_txt p"
    unfolding p_def using low by (rule txt_path_ends)
  have test: "str_endswith (str_lower py p) ''.txt''"
    unfolding lower_txt_test [OF low] by (rule ends)
  have form: "p = file_path \<or> p = file_path @ ''.txt''"
    by (simp add: p_def txt_path_def)
  have ne: "b \<noteq> p"
    unfolding b_def using ends by (rule get_bat_path_differs)
  have bat: "str_endswith b ''.bat''"
    unfolding b_def by (rule get_bat_path_ends)
  have base: "splitext pf b = (fst (splitext pf p), ''.bat'')"
    unfolding b_def using ends by (rule splitext_bat_path)
  have fst_r: "fst r = (case fst (convert_to_bat py pf bn tasks p fs1) of
              Inl e \<Rightarrow> Inl (Exception ''Error saving tasks to file: '' e)
            | Inr bat \<Rightarrow> Inr p)"
    unfolding r_def p_def fs1_def by (rule save_tasks_parts(1) [OF w])
  have snd_r: "snd r = snd (convert_to_bat py pf bn tasks p fs1)"
    unfolding r_def p_def fs1_def by (rule save_tasks_parts(2) [OF w])
  have w1: "writable fs1 = writable fs" by (simp add: fs1_def)
  have written: "files (snd r) p = Some (task_list_text now tasks)"
    unfolding snd_r using convert_to_bat_frame [of p pf p py bn tasks fs1] ne
    by (simp add: b_def fs1_def)
  have good: "fst r = Inr p \<and>
        files (snd r) b = Some (bat_header (bn p) @ concat (blocks py 1 tasks) @ bat_footer)"
    if "writable fs b \<and> (\<forall>t \<in> set tasks. \<not> bad_delay py t)"
  proof -
    have "convert_to_bat py pf bn tasks p fs1 =
            (Inr b, fs1\<lparr>files := (files fs1)(b \<mapsto>
                     bat_header (bn p) @ concat (blocks py 1 tasks) @ bat_footer)\<rparr>)"
      unfolding b_def using that by (intro convert_to_bat_ok) (simp_all add: w1 b_def)
    then show ?thesis by (simp add: fst_r snd_r)
  qed
  have bad: "\<exists>t \<in> set tasks. bad_delay py t \<and>
           fst r = Inl (Exception ''Error saving tasks to file: ''
                         (Exception ''Error creating BAT file: '' (ValueError (details t))))"
    if "writable fs b \<and> (\<exists>t \<in> set tasks. bad_delay py t)"
  proof -
    have "\<exists>t \<in> set tasks. bad_delay py t \<and>
           fst (convert_to_bat py pf bn tasks p fs1) =
             Inl (Exception ''Error creating BAT file: '' (ValueError (details t)))"
      using that by (intro convert_to_bat_bad) (simp_all add: w1 b_def)
    then show ?thesis by (auto simp: fst_r)
  qed
  have unw: "fst r = Inl (Exception ''Error saving tasks to file: ''
                      (Exception ''Error creating BAT file: '' (OSError b)))"
    if "\<not> writable fs b"
  proof -
    have "convert_to_bat py pf bn tasks p fs1 =
           (Inl (Exception ''Error creating BAT file: '' (OSError b)), fs1)"
      unfolding b_def using that by (intro convert_to_bat_unwritable) (simp add: w1 b_def)
    then show ?thesis by (simp add: fst_r)
  qed
  show ?thesis
    unfolding Let_def p_def [symmetric] b_def [symmetric] r_def [symmetric]
    using form test ends ne bat base written good bad unw by blast
qed


lemma txt_path_dir_tasks: "txt_path py ''dir/tasks'' = ''dir/tasks.txt''"
  by (simp add: txt_path_def str_endswith_def str_lower_def is_ascii_def lower_char_def)

lemma example_python_lower:
  "\<forall>q. \<not> is_ascii q \<longrightarrow>
     str_endswith (lower_nonascii example_python q) ''.txt'' = ends_txt q"
  by (simp add: example_python_def ends_txt_def)

lemma bat_path_dir_tasks: "get_bat_path Windows ''dir/tasks.txt'' = ''dir/tasks.bat''"
  by (simp add: get_bat_path_def splitext_def str_rfind_def skip_dots.simps)

theorem save_also_compiles_witness:
  "writable empty_fs (txt_path example_python ''dir/tasks'') \<and>
   txt_path example_python ''dir/tasks'' = ''dir/tasks.txt'' \<and>
   get_bat_path Windows ''dir/tasks.txt'' = ''dir/tasks.bat'' \<and>
   fst (save_tasks example_python Windows posix_basename ''2024-01-01 00:00:00''
          [\<lparr>task_type = ''delay'', details = ''abc'', additional = []\<rparr>] ''dir/tasks'' empty_fs)
     = Inl (Exception ''Error saving tasks to file: ''
             (Exception ''Error creating BAT file: '' (ValueError ''abc''))) \<and>
   files (snd (save_tasks example_python Windows posix_basename ''2024-01-01 00:00:00''
          [\<lparr>task_type = ''delay'', details = ''abc'', additional = []\<rparr>] ''dir/tasks'' empty_fs))
       ''dir/tasks.txt''
     = Some (task_list_text ''2024-01-01 00:00:00''
          [\<lparr>task_type = ''delay'', details = ''abc'', additional = []\<rparr>]) \<and>
   fst (save_tasks example_python Windows posix_basename ''2024-01-01 00:00:00''
          [\<lparr>task_type = ''delay'', details = ''3'', additional = []\<rparr>] ''dir/tasks'' empty_fs)
     = Inr ''dir/tasks.txt'' \<and>
   files (snd (save_tasks example_python Windows posix_basename ''2024-01-01 00:00:00''
          [\<lparr>task_type = ''delay'', details = ''3'', additional = []\<rparr>] ''dir/tasks'' empty_fs))
       ''dir/tasks.bat''
     = Some (bat_header (posix_basename ''dir/tasks.txt'') @
             concat (blocks example_python 1 [\<lparr>task_type = ''delay'', details = ''3'', additional = []\<rparr>]) @
             bat_footer)"
proof -
  let ?bad = "[\<lparr>task_type = ''delay'', details = ''abc'', additional = []\<rparr>]"
  let ?good = "[\<lparr>task_type = ''delay'', details = ''3'', additional = []\<rparr>]"
  have w: "writable empty_fs (txt_path example_python ''dir/tasks'')"
    and wb: "writable empty_fs ''dir/tasks.bat''"
    by (simp_all add: empty_fs_def)
  have isbad: "\<exists>t \<in> set ?bad. bad_delay example_python t"
    by (simp add: bad_delay_def py_int_abc)
  have isgood: "\<forall>t \<in> set ?good. \<not> bad_delay example_python t"
    by (simp add: bad_delay_def py_int_3)
  note th1 = save_also_compiles [OF w example_python_lower, of Windows posix_basename "''2024-01-01 00:00:00''" ?bad,
      unfolded Let_def txt_path_dir_tasks bat_path_dir_tasks]
  note th2 = save_also_compiles [OF w example_python_lower, of Windows posix_basename "''2024-01-01 00:00:00''" ?good,
      unfolded Let_def txt_path_dir_tasks bat_path_dir_tasks]
  from th1 have a: "files (snd (save_tasks example_python Windows posix_basename ''2024-01-01 00:00:00''
          ?bad ''dir/tasks'' empty_fs)) ''dir/tasks.txt''
     = Some (task_list_text ''2024-01-01 00:00:00'' ?bad)"
    by blast
  from th1 wb isbad have "\<exists>t \<in> set ?bad. bad_delay example_python t \<and>
       fst (save_tasks example_python Windows posix_basename ''2024-01-01 00:00:00'' ?bad ''dir/tasks'' empty_fs)
         = Inl (Exception ''Error saving tasks to file: ''
                 (Exception ''Error creating BAT file: '' (ValueError (details t))))"
    by blast
  then have b: "fst (save_tasks example_python Windows posix_basename ''2024-01-01 00:00:00'' ?bad ''dir/tasks'' empty_fs)
         = Inl (Exception ''Error saving tasks to file: ''
                 (Exception ''Error creating BAT file: '' (ValueError ''abc'')))"
    by simp
  from th2 wb isgood have c: "fst (save_tasks example_python Windows posix_basename ''2024-01-01 00:00:00''
          ?good ''dir/tasks'' empty_fs) = Inr ''dir/tasks.txt'' \<and>
     files (snd (save_tasks example_python Windows posix_basename ''2024-01-01 00:00:00''
          ?good ''dir/tasks'' empty_fs)) ''dir/tasks.bat''
     = Some (bat_header (posix_basename ''dir/tasks.txt'') @ concat (blocks example_python 1 ?good) @ bat_footer)"
    by blast
  from w a b c show ?thesis
    by (simp only: txt_path_dir_tasks bat_path_dir_tasks simp_thms)
qed

end
